theory Spec2Isabelle
  imports Main "HOL-Library.Word" "HOL-Library.Sublist"
begin

unbundle bit_operations_syntax

section \<open>Data model\<close>

text \<open>
  Python \<open>bytes\<close> are lists of 8-bit words. A Python \<open>str\<close> is a \<open>string\<close> holding
  the UTF-8 encoding of its text, so an ASCII character is one \<open>char\<close> and the
  comparisons and the split on \<open>'.'\<close> made by the source act on it as they do in
  Python.
\<close>

type_synonym byte = "8 word"
type_synonym bytes = "byte list"
type_synonym path = string

text \<open>
  The object Streamlit hands to the page for one upload: \<open>uploaded_file.name\<close>,
  \<open>.type\<close> (the declared MIME type), \<open>.size\<close> (the declared size in bytes, field \<open>fsize\<close>) and
  \<open>.getvalue()\<close>.
\<close>

record uploaded_file =
  name :: string
  ftype :: string
  fsize :: int
  getvalue :: bytes

section \<open>File intake: \<open>validate_image_file\<close>\<close>

definition allowed_types :: "string list" where
  "allowed_types = [''image/jpeg'', ''image/jpg'', ''image/png'', ''image/gif'', ''image/webp'']"

text \<open>\<open>sep.join(xs)\<close>.\<close>

fun join :: "string \<Rightarrow> string list \<Rightarrow> string" where
  "join sep [] = []"
| "join sep [x] = x"
| "join sep (x # y # ys) = x @ sep @ join sep (y # ys)"

text \<open>
  \<open>validate_image_file(uploaded_file)\<close>, the same function in both apps; \<open>None\<close> is the
  absent upload. The checks are in the order of the source: presence, size, type.
\<close>

definition validate_image_file :: "uploaded_file option \<Rightarrow> bool \<times> string" where
  "validate_image_file uploaded =
     (case uploaded of
        None \<Rightarrow> (False, ''No file uploaded'')
      | Some f \<Rightarrow>
          if fsize f > 20 * 1024 * 1024 then (False, ''File size must be less than 20MB'')
          else if ftype f \<notin> set allowed_types then
            (False, ''File type '' @ ftype f @ '' not supported. Use: '' @ join '', '' allowed_types)
          else (True, ''File is valid''))"

section \<open>Exceptions\<close>

text \<open>
  The Python exceptions that the modelled code can meet, each with its message
  (\<open>str(e)\<close>). \<open>KeyboardInterrupt\<close> is the one member that is not a subclass of
  \<open>Exception\<close>, so \<open>except Exception\<close> does not catch it. An operation that can
  raise returns \<open>exn + 'a\<close>, or \<open>exn option\<close> when it returns nothing.
\<close>

datatype exn =
    TypeError string
  | ValueError string
  | UnicodeDecodeError string
  | BinasciiError string
  | FileExistsError string
  | FileNotFoundError string
  | PermissionError string
  | APIError string
  | KeyboardInterrupt

fun str_exn :: "exn \<Rightarrow> string" where
  "str_exn (TypeError m) = m"
| "str_exn (ValueError m) = m"
| "str_exn (UnicodeDecodeError m) = m"
| "str_exn (BinasciiError m) = m"
| "str_exn (FileExistsError m) = m"
| "str_exn (FileNotFoundError m) = m"
| "str_exn (PermissionError m) = m"
| "str_exn (APIError m) = m"
| "str_exn KeyboardInterrupt = []"

fun is_Exception :: "exn \<Rightarrow> bool" where
  "is_Exception KeyboardInterrupt = False"
| "is_Exception _ = True"

section \<open>The standard library's base64 and text codecs\<close>

text \<open>
  \<open>encode_image\<close> and the result extraction call \<open>base64.b64encode\<close>,
  \<open>bytes.decode("utf-8")\<close> and \<open>base64.b64decode\<close>. These are CPython's; they are
  modelled after \<open>Modules/binascii.c\<close> and \<open>Lib/base64.py\<close>.
\<close>

definition b64_alphabet :: string where
  "b64_alphabet = ''ABCDEFGHIJKLMNOPQRSTUVWXYZabcdefghijklmnopqrstuvwxyz0123456789+/''"

definition table_b2a_base64 :: "byte \<Rightarrow> byte" where
  "table_b2a_base64 i = of_char (b64_alphabet ! unat i)"

definition BASE64_PAD :: byte where
  "BASE64_PAD = of_char CHR ''=''"

text \<open>
  The reverse table: the 6-bit value of an alphabet character, \<open>None\<close> for every other
  byte (the table's entries \<open>-1\<close>).
\<close>

definition table_a2b_base64 :: "byte \<Rightarrow> byte option" where
  "table_a2b_base64 c =
     (if 65 \<le> c \<and> c \<le> 90 then Some (c - 65)
      else if 97 \<le> c \<and> c \<le> 122 then Some (c - 71)
      else if 48 \<le> c \<and> c \<le> 57 then Some (c + 4)
      else if c = 43 then Some 62
      else if c = 47 then Some 63
      else None)"

text \<open>
  \<open>binascii.b2a_base64(data, newline=False)\<close>: three bytes give four characters; one
  or two bytes left over give two or three characters and padding.
\<close>

fun b2a_base64 :: "bytes \<Rightarrow> bytes" where
  "b2a_base64 [] = []"
| "b2a_base64 [a] =
     [table_b2a_base64 (drop_bit 2 a),
      table_b2a_base64 (push_bit 4 (a AND 3)),
      BASE64_PAD, BASE64_PAD]"
| "b2a_base64 [a, b] =
     [table_b2a_base64 (drop_bit 2 a),
      table_b2a_base64 (push_bit 4 (a AND 3) OR drop_bit 4 b),
      table_b2a_base64 (push_bit 2 (b AND 15)),
      BASE64_PAD]"
| "b2a_base64 (a # b # c # rest) =
     [table_b2a_base64 (drop_bit 2 a),
      table_b2a_base64 (push_bit 4 (a AND 3) OR drop_bit 4 b),
      table_b2a_base64 (push_bit 2 (b AND 15) OR drop_bit 6 c),
      table_b2a_base64 (c AND 63)] @ b2a_base64 rest"

text \<open>
  \<open>binascii.a2b_base64(data)\<close> with \<open>strict_mode\<close> off, as \<open>b64decode\<close> calls it
  when \<open>validate\<close> is false: the loop over the input with its state \<open>quad_pos\<close>,
  \<open>leftchar\<close>, \<open>pads\<close> and the output written so far. A pad character counts only
  from \<open>quad_pos \<ge> 2\<close> on and ends the decoding once the quad is complete; bytes
  outside the alphabet are skipped; input that ends inside a quad is an error.
\<close>

fun a2b_loop :: "nat \<Rightarrow> byte \<Rightarrow> nat \<Rightarrow> bytes \<Rightarrow> bytes \<Rightarrow> exn + bytes" where
  "a2b_loop quad_pos leftchar pads out [] =
     (if quad_pos \<noteq> 0 then
        (if quad_pos = 1 then
           Inl (BinasciiError ''Invalid base64-encoded string: number of data characters cannot be 1 more than a multiple of 4'')
         else Inl (BinasciiError ''Incorrect padding''))
      else Inr out)"
| "a2b_loop quad_pos leftchar pads out (this_ch # rest) =
     (if this_ch = BASE64_PAD then
        (if quad_pos \<ge> 2 \<and> quad_pos + (pads + 1) \<ge> 4 then Inr out
         else a2b_loop quad_pos leftchar (if quad_pos \<ge> 2 then pads + 1 else pads) out rest)
      else
        (case table_a2b_base64 this_ch of
           None \<Rightarrow> a2b_loop quad_pos leftchar pads out rest
         | Some v \<Rightarrow>
             if quad_pos = 0 then a2b_loop 1 v 0 out rest
             else if quad_pos = 1 then
               a2b_loop 2 (v AND 15) 0 (out @ [push_bit 2 leftchar OR drop_bit 4 v]) rest
             else if quad_pos = 2 then
               a2b_loop 3 (v AND 3) 0 (out @ [push_bit 4 leftchar OR drop_bit 2 v]) rest
             else
               a2b_loop 0 0 0 (out @ [push_bit 6 leftchar OR v]) rest))"

definition a2b_base64 :: "bytes \<Rightarrow> exn + bytes" where
  "a2b_base64 s = a2b_loop 0 0 0 [] s"

text \<open>
  \<open>bytes.decode("utf-8")\<close>. A \<open>str\<close> is kept as its UTF-8 encoding, so decoding
  checks that the bytes are well-formed UTF-8 (no overlong forms, no surrogates,
  nothing above U+10FFFF) and keeps them.
\<close>

definition is_continuation :: "byte \<Rightarrow> bool" where
  "is_continuation b \<longleftrightarrow> 128 \<le> b \<and> b \<le> 191"

fun utf8_valid :: "bytes \<Rightarrow> bool" where
  "utf8_valid [] = True"
| "utf8_valid (b0 # rest) =
     (if b0 < 128 then utf8_valid rest
      else if 194 \<le> b0 \<and> b0 \<le> 223 then
        (case rest of
           b1 # r \<Rightarrow> is_continuation b1 \<and> utf8_valid r
         | _ \<Rightarrow> False)
      else if 224 \<le> b0 \<and> b0 \<le> 239 then
        (case rest of
           b1 # b2 # r \<Rightarrow>
             is_continuation b1 \<and> is_continuation b2 \<and>
             (b0 = 224 \<longrightarrow> 160 \<le> b1) \<and> (b0 = 237 \<longrightarrow> b1 \<le> 159) \<and> utf8_valid r
         | _ \<Rightarrow> False)
      else if 240 \<le> b0 \<and> b0 \<le> 244 then
        (case rest of
           b1 # b2 # b3 # r \<Rightarrow>
             is_continuation b1 \<and> is_continuation b2 \<and> is_continuation b3 \<and>
             (b0 = 240 \<longrightarrow> 144 \<le> b1) \<and> (b0 = 244 \<longrightarrow> b1 \<le> 143) \<and> utf8_valid r
         | _ \<Rightarrow> False)
      else False)"

definition char_of_byte :: "byte \<Rightarrow> char" where
  "char_of_byte b = char_of (unat b)"

definition decode_utf8 :: "bytes \<Rightarrow> exn + string" where
  "decode_utf8 bs =
     (if utf8_valid bs then Inr (map char_of_byte bs)
      else Inl (UnicodeDecodeError ''utf-8 codec cannot decode bytes''))"

text \<open>
  \<open>str.encode("ascii")\<close> as \<open>b64decode\<close> applies it to a \<open>str\<close> argument: a
  character outside ASCII is a \<open>ValueError\<close>.
\<close>

definition encode_ascii :: "string \<Rightarrow> exn + bytes" where
  "encode_ascii s =
     (if \<forall>c \<in> set s. (of_char c :: nat) < 128 then Inr (map of_char s)
      else Inl (ValueError ''string argument should contain only ASCII characters''))"

definition b64encode :: "bytes \<Rightarrow> bytes" where
  "b64encode s = b2a_base64 s"

text \<open>
  \<open>base64.b64decode(s)\<close> on the value of a response entry's \<open>result\<close> field, which is
  a \<open>str\<close> or \<open>None\<close>; \<open>None\<close> is a \<open>TypeError\<close>.
\<close>

definition b64decode :: "string option \<Rightarrow> exn + bytes" where
  "b64decode s =
     (case s of
        None \<Rightarrow> Inl (TypeError ''argument should be a bytes-like object or ASCII string, not NoneType'')
      | Some str \<Rightarrow> (case encode_ascii str of Inl e \<Rightarrow> Inl e | Inr bs \<Rightarrow> a2b_base64 bs))"

section \<open>The world outside the page\<close>

text \<open>
  What one request sends to \<open>client.responses.create\<close> and what comes back. A content
  entry is \<open>{"type": "input_text", "text": t}\<close>, \<open>{"type": "input_image", "image_url": u}\<close>
  or \<open>{"type": "input_image", "file_id": i}\<close>; a tool is
  \<open>{"type": t, "quality": q, "input_image_mask": {"file_id": m}}\<close> with the last two
  keys optional.
\<close>

datatype content_item =
    input_text string
  | input_image_url string
  | input_image_file_id string

record message =
  role :: string
  content :: "content_item list"

record tool =
  tool_type :: string
  quality :: "string option"
  input_image_mask :: "string option"

record request =
  model :: string
  input :: "message list"
  tools :: "tool list"

record output_item =
  otype :: string
  result :: "string option"

record response =
  "output" :: "output_item list"

text \<open>
  The calls a handler makes that can be observed from outside, in the order it makes
  them: calls into Streamlit, calls to the remote API, file-system calls, and
  \<open>temp_files.append\<close>.
\<close>

datatype st_call =
    st_success string
  | st_error string
  | st_subheader string
  | st_info string
  | st_image bytes string
  | st_download_button string bytes string string
  | st_exception exn

datatype event =
    TempFileCreated path
  | TempFilesAppend path
  | FilesCreate bytes string
  | ResponsesCreate request
  | FileWrite path bytes
  | Unlink path
  | St st_call

text \<open>
  The state a handler changes: the files that exist with their contents, how many
  names the temporary-name generator has handed out, how many calls the remote API
  has received, and the trace of events.
\<close>

record world =
  fs :: "path \<Rightarrow> bytes option"
  names_drawn :: nat
  api_calls :: nat
  log :: "event list"

text \<open>
  What the handler does not control: the temporary directory, the sequence of random
  names \<open>tempfile\<close> draws from, the answers of the remote API (to its \<open>n\<close>-th call),
  and the paths the operating system refuses to delete or to open for writing.
\<close>

record env =
  tempdir :: string
  candidate_names :: "nat \<Rightarrow> string"
  files_create :: "nat \<Rightarrow> bytes \<Rightarrow> string \<Rightarrow> exn + string"
  responses_create :: "nat \<Rightarrow> request \<Rightarrow> exn + response"
  unlink_denied :: "path \<Rightarrow> bool"
  open_denied :: "path \<Rightarrow> bool"

definition emit :: "world \<Rightarrow> event \<Rightarrow> world" where
  "emit w e = w\<lparr>log := log w @ [e]\<rparr>"

definition st :: "world \<Rightarrow> st_call \<Rightarrow> world" where
  "st w c = emit w (St c)"

text \<open>\<open>open(path, "rb").read()\<close>.\<close>

definition open_rb :: "world \<Rightarrow> path \<Rightarrow> exn + bytes" where
  "open_rb w p =
     (case fs w p of
        None \<Rightarrow> Inl (FileNotFoundError ''No such file or directory'')
      | Some data \<Rightarrow> Inr data)"

text \<open>
  \<open>with open(path, "wb") as f: f.write(data)\<close>.
\<close>

definition open_wb_write :: "env \<Rightarrow> world \<Rightarrow> path \<Rightarrow> bytes \<Rightarrow> world \<times> exn option" where
  "open_wb_write ev w p data =
     (if open_denied ev p then (w, Some (PermissionError ''Permission denied''))
      else (emit (w\<lparr>fs := (fs w)(p \<mapsto> data)\<rparr>) (FileWrite p data), None))"

text \<open>
  \<open>os.unlink(path)\<close>: the attempt is recorded, then the file is removed, unless the
  system refuses or there is no such file.
\<close>

definition os_unlink :: "env \<Rightarrow> world \<Rightarrow> path \<Rightarrow> world \<times> exn option" where
  "os_unlink ev w p =
     (let w1 = emit w (Unlink p) in
      if unlink_denied ev p then (w1, Some (PermissionError ''Operation not permitted''))
      else (case fs w1 p of
              None \<Rightarrow> (w1, Some (FileNotFoundError ''No such file or directory''))
            | Some _ \<Rightarrow> (w1\<lparr>fs := (fs w1)(p := None)\<rparr>, None)))"

text \<open>
  \<open>tempfile._mkstemp_inner\<close>, which \<open>NamedTemporaryFile\<close> calls: up to \<open>TMP_MAX\<close>
  times it draws the next random name and creates \<open>dir/prefix+name+suffix\<close>
  exclusively; a name that exists is skipped, and when none is left it raises
  \<open>FileExistsError\<close>.
\<close>

definition TMP_MAX :: nat where
  "TMP_MAX = 10000"

fun mkstemp_inner :: "env \<Rightarrow> world \<Rightarrow> string \<Rightarrow> string \<Rightarrow> nat \<Rightarrow> world \<times> (exn + path)" where
  "mkstemp_inner ev w pre suf 0 =
     (w, Inl (FileExistsError ''No usable temporary file name found''))"
| "mkstemp_inner ev w pre suf (Suc n) =
     (let file = tempdir ev @ ''/'' @ pre @ candidate_names ev (names_drawn w) @ suf;
          w1 = w\<lparr>names_drawn := names_drawn w + 1\<rparr>
      in case fs w1 file of
           Some _ \<Rightarrow> mkstemp_inner ev w1 pre suf n
         | None \<Rightarrow> (emit (w1\<lparr>fs := (fs w1)(file \<mapsto> [])\<rparr>) (TempFileCreated file), Inr file))"

text \<open>\<open>s.split(sep)\<close> for a one-character separator: never an empty list.\<close>

fun split :: "char \<Rightarrow> string \<Rightarrow> string list" where
  "split sep [] = [[]]"
| "split sep (c # cs) =
     (if c = sep then [] # split sep cs
      else (case split sep cs of
              [] \<Rightarrow> [[c]]
            | x # xs \<Rightarrow> (c # x) # xs))"

text \<open>\<open>str(n)\<close> for a natural number.\<close>

fun str_nat :: "nat \<Rightarrow> string" where
  "str_nat n =
     (if n < 10 then [char_of (48 + n)]
      else str_nat (n div 10) @ [char_of (48 + n mod 10)])"

declare str_nat.simps [simp del]

section \<open>Functions shared by both apps\<close>

text \<open>
  \<open>save_uploaded_file(uploaded_file)\<close>: a \<open>NamedTemporaryFile(delete=False)\<close> with the
  suffix \<open>"." + uploaded_file.name.split(".")[-1]\<close>, the upload's bytes written to it,
  and its path returned.
\<close>

definition save_uploaded_file :: "env \<Rightarrow> world \<Rightarrow> uploaded_file \<Rightarrow> world \<times> (exn + path)" where
  "save_uploaded_file ev w uploaded =
     (case mkstemp_inner ev w ''tmp'' (''.'' @ last (split CHR ''.'' (name uploaded))) TMP_MAX of
        (w1, Inl e) \<Rightarrow> (w1, Inl e)
      | (w1, Inr tmp_name) \<Rightarrow> (w1\<lparr>fs := (fs w1)(tmp_name \<mapsto> getvalue uploaded)\<rparr>, Inr tmp_name))"

text \<open>\<open>encode_image(file_path)\<close>: \<open>base64.b64encode(f.read()).decode("utf-8")\<close>.\<close>

definition encode_image :: "world \<Rightarrow> path \<Rightarrow> exn + string" where
  "encode_image w file_path =
     (case open_rb w file_path of
        Inl e \<Rightarrow> Inl e
      | Inr data \<Rightarrow> decode_utf8 (b64encode data))"

text \<open>
  \<open>create_file(file_path)\<close>: the file's bytes go to \<open>client.files.create\<close> with
  purpose \<open>"vision"\<close>; the answer's \<open>id\<close> is returned.
\<close>

definition create_file :: "env \<Rightarrow> world \<Rightarrow> path \<Rightarrow> world \<times> (exn + string)" where
  "create_file ev w file_path =
     (case open_rb w file_path of
        Inl e \<Rightarrow> (w, Inl e)
      | Inr file_content \<Rightarrow>
          ((emit w (FilesCreate file_content ''vision''))\<lparr>api_calls := api_calls w + 1\<rparr>,
           files_create ev (api_calls w) file_content ''vision''))"

text \<open>\<open>client.responses.create(model=..., input=..., tools=...)\<close>.\<close>

definition client_responses_create :: "env \<Rightarrow> world \<Rightarrow> request \<Rightarrow> world \<times> (exn + response)" where
  "client_responses_create ev w req =
     ((emit w (ResponsesCreate req))\<lparr>api_calls := api_calls w + 1\<rparr>,
      responses_create ev (api_calls w) req)"

text \<open>
  The \<open>finally\<close> block of both handlers: for each path of \<open>temp_files\<close>,
  \<open>os.unlink\<close> inside \<open>try ... except: pass\<close>.
\<close>

fun cleanup :: "env \<Rightarrow> world \<Rightarrow> path list \<Rightarrow> world" where
  "cleanup ev w [] = w"
| "cleanup ev w (temp_file # rest) = cleanup ev (fst (os_unlink ev w temp_file)) rest"

text \<open>
  The outer \<open>except Exception as e\<close> of both handlers: \<open>st.error\<close> with the message
  and \<open>st.exception(e)\<close>; anything that is not an \<open>Exception\<close> leaves the handler.
\<close>

definition cross_mark :: string where
  "cross_mark = [CHR 0xE2, CHR 0x9D, CHR 0x8C]"

definition check_mark :: string where
  "check_mark = [CHR 0xE2, CHR 0x9C, CHR 0x85]"

definition except_Exception :: "world \<Rightarrow> exn option \<Rightarrow> world \<times> exn option" where
  "except_Exception w raised =
     (case raised of
        None \<Rightarrow> (w, None)
      | Some e \<Rightarrow>
          if is_Exception e then
            (st (st w (st_error (cross_mark @ '' Error: '' @ str_exn e))) (st_exception e), None)
          else (w, Some e))"

section \<open>The image generator page (\<open>streamlit_app.py\<close>)\<close>

definition artist_palette :: string where
  "artist_palette = [CHR 0xF0, CHR 0x9F, CHR 0x8E, CHR 0xA8]"

definition inbox_tray :: string where
  "inbox_tray = [CHR 0xF0, CHR 0x9F, CHR 0x93, CHR 0xA5]"

text \<open>
  The loop over \<open>valid_files\<close>. Its state is the world and the three lists
  \<open>temp_files\<close>, \<open>base64_images\<close>, \<open>file_ids\<close>; an exception leaves the loop with the
  lists as they are at that moment.
\<close>

fun process_files ::
  "env \<Rightarrow> uploaded_file list \<Rightarrow> world \<times> path list \<times> string list \<times> string list
     \<Rightarrow> (world \<times> path list \<times> string list \<times> string list) \<times> exn option" where
  "process_files ev [] state = (state, None)"
| "process_files ev (uploaded # rest) (w, temp_files, base64_images, file_ids) =
     (case save_uploaded_file ev w uploaded of
        (w1, Inl e) \<Rightarrow> ((w1, temp_files, base64_images, file_ids), Some e)
      | (w1, Inr temp_path) \<Rightarrow>
          (let w2 = emit w1 (TempFilesAppend temp_path);
               temp_files = temp_files @ [temp_path]
           in case encode_image w2 temp_path of
                Inl e \<Rightarrow> ((w2, temp_files, base64_images, file_ids), Some e)
              | Inr base64_image \<Rightarrow>
                  (let base64_images = base64_images @ [base64_image]
                   in case create_file ev w2 temp_path of
                        (w3, Inl e) \<Rightarrow> ((w3, temp_files, base64_images, file_ids), Some e)
                      | (w3, Inr file_id) \<Rightarrow>
                          process_files ev rest
                            (w3, temp_files, base64_images, file_ids @ [file_id]))))"

text \<open>
  The content list: the prompt, then one \<open>content.append\<close> per element of
  \<open>base64_images\<close>, then one per element of \<open>file_ids\<close>.
\<close>

definition compose_content :: "string \<Rightarrow> string list \<Rightarrow> string list \<Rightarrow> content_item list" where
  "compose_content prompt base64_images file_ids =
     (let content = [input_text prompt];
          content = foldl (\<lambda>content base64_image.
                      content @ [input_image_url (''data:image/jpeg;base64,'' @ base64_image)])
                      content base64_images;
          content = foldl (\<lambda>content file_id. content @ [input_image_file_id file_id])
                      content file_ids
      in content)"

definition generator_request :: "content_item list \<Rightarrow> request" where
  "generator_request content_list =
     \<lparr>model = ''gpt-4o'',
      input = [\<lparr>role = ''user'', content = content_list\<rparr>],
      tools = [\<lparr>tool_type = ''image_generation'', quality = None, input_image_mask = None\<rparr>]\<rparr>"

text \<open>
  The loop \<open>for i, image_base64 in enumerate(image_data)\<close>: decode, show, offer for
  download. A result that does not decode raises and ends the loop.
\<close>

fun show_images :: "world \<Rightarrow> nat \<Rightarrow> string option list \<Rightarrow> world \<times> exn option" where
  "show_images w i [] = (w, None)"
| "show_images w i (image_base64 # rest) =
     (case b64decode image_base64 of
        Inl e \<Rightarrow> (w, Some e)
      | Inr image_bytes \<Rightarrow>
          (let w1 = st w (st_image image_bytes (''Generated Image '' @ str_nat (i + 1)));
               w2 = st w1 (st_download_button (inbox_tray @ '' Download Image '' @ str_nat (i + 1))
                             image_bytes (''generated_image_'' @ str_nat (i + 1) @ ''.png'') ''image/png'')
           in show_images w2 (i + 1) rest))"

text \<open>
  The two list comprehensions after the call: the entries of \<open>response.output\<close> whose
  \<open>type\<close> is \<open>"image_generation_call"\<close>, then the \<open>result\<close> of each.
\<close>

definition generator_image_data :: "response \<Rightarrow> string option list" where
  "generator_image_data resp =
     (let image_generation_calls = filter (\<lambda>out. otype out = ''image_generation_call'') (output resp)
      in map result image_generation_calls)"

text \<open>
  What the generator does with the response. \<open>response.output\<close> is a list, which has
  no attribute \<open>content\<close>, so the \<open>hasattr\<close> test in the branch without images is
  false and that branch ends after \<open>st.error\<close>.
\<close>

definition generator_results :: "world \<Rightarrow> response \<Rightarrow> world \<times> exn option" where
  "generator_results w resp =
     (let image_data = generator_image_data resp
      in if image_data \<noteq> [] then
           show_images
             (st (st w (st_success (check_mark @ '' Image generated successfully!'')))
                 (st_subheader (artist_palette @ '' Generated Images'')))
             0 image_data
         else (st w (st_error (cross_mark @ '' No images were generated'')), None))"

text \<open>
  The inner \<open>try\<close> block; it returns \<open>temp_files\<close> as they are when it ends, for the
  \<open>finally\<close> block.
\<close>

definition generator_try :: "env \<Rightarrow> world \<Rightarrow> uploaded_file list \<Rightarrow> string \<Rightarrow> world \<times> path list \<times> exn option" where
  "generator_try ev w valid_files prompt =
     (case process_files ev valid_files (w, [], [], []) of
        ((w1, temp_files, base64_images, file_ids), Some e) \<Rightarrow> (w1, temp_files, Some e)
      | ((w1, temp_files, base64_images, file_ids), None) \<Rightarrow>
          (case client_responses_create ev w1
                  (generator_request (compose_content prompt base64_images file_ids)) of
             (w2, Inl e) \<Rightarrow> (w2, temp_files, Some e)
           | (w2, Inr resp) \<Rightarrow>
               (case generator_results w2 resp of (w3, raised) \<Rightarrow> (w3, temp_files, raised))))"

text \<open>
  The body of \<open>if st.button("Generate Image")\<close>: the two guards, then
  \<open>try: (try: ... finally: cleanup) except Exception\<close>. The result is the exception
  that leaves the handler, if any.
\<close>

definition generator_clicked :: "env \<Rightarrow> world \<Rightarrow> uploaded_file list \<Rightarrow> string \<Rightarrow> world \<times> exn option" where
  "generator_clicked ev w valid_files prompt =
     (if valid_files = [] then (st w (st_error ''Please upload at least one valid image!''), None)
      else if prompt = [] then (st w (st_error ''Please enter a prompt!''), None)
      else (case generator_try ev w valid_files prompt of
              (w1, temp_files, raised) \<Rightarrow> except_Exception (cleanup ev w1 temp_files) raised))"

section \<open>The image masking page (\<open>image_masking_streamlit.py\<close>)\<close>

definition floppy_disk :: string where
  "floppy_disk = [CHR 0xF0, CHR 0x9F, CHR 0x92, CHR 0xBE]"

text \<open>The options of the quality \<open>st.selectbox\<close>; the page starts on \<open>"high"\<close>.\<close>

definition quality_options :: "string list" where
  "quality_options = [''standard'', ''high'']"

definition masking_request :: "string \<Rightarrow> string \<Rightarrow> string \<Rightarrow> string \<Rightarrow> request" where
  "masking_request prompt base_file_id qual mask_file_id =
     \<lparr>model = ''gpt-4o'',
      input = [\<lparr>role = ''user'',
                content = [input_text prompt, input_image_file_id base_file_id]\<rparr>],
      tools = [\<lparr>tool_type = ''image_generation'', quality = Some qual,
                input_image_mask = Some mask_file_id\<rparr>]\<rparr>"

text \<open>
  The list comprehension after the call:
  \<open>[output.result for output in response.output if output.type == "image_generation_call"]\<close>.
\<close>

definition masking_image_data :: "response \<Rightarrow> string option list" where
  "masking_image_data resp =
     [result out. out \<leftarrow> output resp, otype out = ''image_generation_call'']"

text \<open>
  What the masking page does with the response: \<open>image_data[0]\<close> alone is decoded,
  shown, offered for download and written to \<open>output_filename\<close>.
\<close>

definition masking_results :: "env \<Rightarrow> world \<Rightarrow> response \<Rightarrow> string \<Rightarrow> world \<times> exn option" where
  "masking_results ev w resp output_filename =
     (case masking_image_data resp of
        [] \<Rightarrow> (st w (st_error (cross_mark @ '' No image was generated'')), None)
      | image_base64 # _ \<Rightarrow>
          (let w1 = st (st w (st_success (check_mark @ '' Masked image generated successfully!'')))
                       (st_subheader (artist_palette @ '' Generated Masked Image''))
           in case b64decode image_base64 of
                Inl e \<Rightarrow> (w1, Some e)
              | Inr image_bytes \<Rightarrow>
                  (let w2 = st w1 (st_image image_bytes ''Generated Masked Image'');
                       w3 = st w2 (st_download_button (inbox_tray @ '' Download Masked Image'')
                                     image_bytes output_filename ''image/png'')
                   in case open_wb_write ev w3 output_filename image_bytes of
                        (w4, Some e) \<Rightarrow> (w4, Some e)
                      | (w4, None) \<Rightarrow>
                          (st w4 (st_info (floppy_disk @ '' Image also saved as: '' @ output_filename)),
                           None))))"

definition masking_try ::
  "env \<Rightarrow> world \<Rightarrow> uploaded_file \<Rightarrow> uploaded_file \<Rightarrow> string \<Rightarrow> string \<Rightarrow> string
     \<Rightarrow> world \<times> path list \<times> exn option" where
  "masking_try ev w base_image mask_image prompt qual output_filename =
     (case save_uploaded_file ev w base_image of
        (w1, Inl e) \<Rightarrow> (w1, [], Some e)
      | (w1, Inr base_path) \<Rightarrow>
     (case save_uploaded_file ev (emit w1 (TempFilesAppend base_path)) mask_image of
        (w2, Inl e) \<Rightarrow> (w2, [base_path], Some e)
      | (w2, Inr mask_path) \<Rightarrow>
     (case create_file ev (emit w2 (TempFilesAppend mask_path)) base_path of
        (w3, Inl e) \<Rightarrow> (w3, [base_path, mask_path], Some e)
      | (w3, Inr base_file_id) \<Rightarrow>
     (case create_file ev w3 mask_path of
        (w4, Inl e) \<Rightarrow> (w4, [base_path, mask_path], Some e)
      | (w4, Inr mask_file_id) \<Rightarrow>
     (case client_responses_create ev w4
             (masking_request prompt base_file_id qual mask_file_id) of
        (w5, Inl e) \<Rightarrow> (w5, [base_path, mask_path], Some e)
      | (w5, Inr resp) \<Rightarrow>
     (case masking_results ev w5 resp output_filename of
        (w6, raised) \<Rightarrow> (w6, [base_path, mask_path], raised)))))))"

text \<open>
  The body of \<open>if st.button("Generate Masked Image")\<close>; \<open>None\<close> is the missing upload.
\<close>

definition masking_clicked ::
  "env \<Rightarrow> world \<Rightarrow> uploaded_file option \<Rightarrow> uploaded_file option \<Rightarrow> string \<Rightarrow> string \<Rightarrow> string
     \<Rightarrow> world \<times> exn option" where
  "masking_clicked ev w base_image mask_image prompt qual output_filename =
     (case base_image of
        None \<Rightarrow> (st w (st_error ''Please upload a base image!''), None)
      | Some base_file \<Rightarrow>
     (case mask_image of
        None \<Rightarrow> (st w (st_error ''Please upload a mask image!''), None)
      | Some mask_file \<Rightarrow>
          if prompt = [] then (st w (st_error ''Please enter a prompt!''), None)
          else (case masking_try ev w base_file mask_file prompt qual output_filename of
                  (w1, temp_files, raised) \<Rightarrow> except_Exception (cleanup ev w1 temp_files) raised)))"

section \<open>The launchers (\<open>run_image_generator.py\<close>, \<open>mask_runner.py\<close>)\<close>

text \<open>
  What a launcher meets: whether a package can be imported (\<open>False\<close> is
  \<open>ImportError\<close>), the interpreter's path, and how \<open>subprocess.run\<close> ends for a
  command line: it returns with the child's return code, the user interrupts it, or it
  raises an \<open>Exception\<close> with a message.
\<close>

datatype run_outcome =
    Completed int
  | RaisedKeyboardInterrupt
  | RaisedException string

record launcher_env =
  importable :: "string \<Rightarrow> bool"
  sys_executable :: string
  subprocess_run :: "string list \<Rightarrow> run_outcome"

datatype launcher_event =
    Print string
  | SubprocessRun "string list"

definition required_packages :: "string list" where
  "required_packages = [''streamlit'', ''openai'', ''requests'', ''PIL'']"

definition package_emoji :: string where
  "package_emoji = [CHR 0xF0, CHR 0x9F, CHR 0x93, CHR 0xA6]"

definition rocket :: string where
  "rocket = [CHR 0xF0, CHR 0x9F, CHR 0x9A, CHR 0x80]"

definition mobile_phone :: string where
  "mobile_phone = [CHR 0xF0, CHR 0x9F, CHR 0x93, CHR 0xB1]"

definition stop_button :: string where
  "stop_button = [CHR 0xE2, CHR 0x8F, CHR 0xB9, CHR 0xEF, CHR 0xB8, CHR 0x8F]"

definition waving_hand :: string where
  "waving_hand = [CHR 0xF0, CHR 0x9F, CHR 0x91, CHR 0x8B]"

definition performing_arts :: string where
  "performing_arts = [CHR 0xF0, CHR 0x9F, CHR 0x8E, CHR 0xAD]"

text \<open>
  \<open>check_dependencies()\<close>, the same in both launchers: the loop collects the packages
  whose import raises \<open>ImportError\<close>; with any missing it prints them and returns
  \<open>False\<close>.
\<close>

definition missing_packages :: "launcher_env \<Rightarrow> string list" where
  "missing_packages lenv =
     foldl (\<lambda>missing package.
              if (if package = ''PIL'' then importable lenv ''PIL'' else importable lenv package)
              then missing else missing @ [package])
       [] required_packages"

definition check_dependencies :: "launcher_env \<Rightarrow> launcher_event list \<times> bool" where
  "check_dependencies lenv =
     (let missing = missing_packages lenv
      in if missing \<noteq> [] then
           ([Print (cross_mark @ '' Missing required packages:'')]
              @ map (\<lambda>package. Print (''   - '' @ package)) missing
              @ [Print ([CHR 0x0A] @ package_emoji @ '' Install dependencies with:''),
                 Print ''   pip install -r requirements.txt''],
            False)
         else ([], True))"

definition starting_messages :: "launcher_event list" where
  "starting_messages =
     [Print (check_mark @ '' All dependencies found!''),
      Print (rocket @ '' Starting Streamlit app...''),
      Print (mobile_phone @ '' The app will open in your default browser''),
      Print (stop_button @ ''  Press Ctrl+C to stop the server''),
      Print (replicate 50 CHR ''-'')]"

text \<open>
  The part of \<open>main()\<close> that both launchers share after the banner: the dependency
  check with \<open>sys.exit(1)\<close>, then \<open>subprocess.run\<close> inside \<open>try\<close>, with
  \<open>except KeyboardInterrupt\<close> (a message, and \<open>main\<close> returns) and
  \<open>except Exception\<close> (a message and \<open>sys.exit(1)\<close>). The result is what was
  printed and run, and the exit code of the process.
\<close>

definition check_and_run :: "launcher_env \<Rightarrow> string list \<Rightarrow> launcher_event list \<times> int" where
  "check_and_run lenv argv =
     (case check_dependencies lenv of
        (printed, False) \<Rightarrow> (printed, 1)
      | (printed, True) \<Rightarrow>
          (case subprocess_run lenv argv of
             Completed rc \<Rightarrow> (printed @ starting_messages @ [SubprocessRun argv], 0)
           | RaisedKeyboardInterrupt \<Rightarrow>
               (printed @ starting_messages @ [SubprocessRun argv,
                  Print ([CHR 0x0A] @ waving_hand @ '' App stopped by user'')], 0)
           | RaisedException e \<Rightarrow>
               (printed @ starting_messages @ [SubprocessRun argv,
                  Print (cross_mark @ '' Error starting app: '' @ e)], 1)))"

text \<open>\<open>main()\<close> of \<open>run_image_generator.py\<close>.\<close>

definition run_image_generator_main :: "launcher_env \<Rightarrow> launcher_event list \<times> int" where
  "run_image_generator_main lenv =
     (case check_and_run lenv
             [sys_executable lenv, ''-m'', ''streamlit'', ''run'', ''streamlit_app.py'',
              ''--server.port'', ''8501'', ''--server.address'', ''localhost''] of
        (events, code) \<Rightarrow>
          ([Print (artist_palette @ '' AI Image Generator - GPT-4 Vision''),
            Print (replicate 50 CHR ''=''),
            Print ''Generate images using multiple reference images and GPT-4 Vision'',
            Print []] @ events, code))"

text \<open>\<open>main()\<close> of \<open>mask_runner.py\<close>.\<close>

definition mask_runner_main :: "launcher_env \<Rightarrow> launcher_event list \<times> int" where
  "mask_runner_main lenv =
     (case check_and_run lenv
             [sys_executable lenv, ''-m'', ''streamlit'', ''run'', ''image_masking_streamlit.py'',
              ''--server.port'', ''8502'', ''--server.address'', ''localhost''] of
        (events, code) \<Rightarrow>
          ([Print (performing_arts @ '' AI Image Masking - GPT-4 Vision''),
            Print (replicate 50 CHR ''=''),
            Print ''Generate new content in masked areas of your images'',
            Print ''using GPT-4 Vision with image masking capabilities'',
            Print []] @ events, code))"

section \<open>Reading the trace\<close>

text \<open>
  The paths given to \<open>temp_files.append\<close>, the paths given to \<open>os.unlink\<close>, the
  requests sent to \<open>client.responses.create\<close> and the calls into Streamlit, each in
  the order of the trace.
\<close>

fun appended :: "event list \<Rightarrow> path list" where
  "appended [] = []"
| "appended (TempFilesAppend p # es) = p # appended es"
| "appended (_ # es) = appended es"

fun unlinked :: "event list \<Rightarrow> path list" where
  "unlinked [] = []"
| "unlinked (Unlink p # es) = p # unlinked es"
| "unlinked (_ # es) = unlinked es"

fun requests :: "event list \<Rightarrow> request list" where
  "requests [] = []"
| "requests (ResponsesCreate r # es) = r # requests es"
| "requests (_ # es) = requests es"

fun st_calls :: "event list \<Rightarrow> st_call list" where
  "st_calls [] = []"
| "st_calls (St c # es) = c # st_calls es"
| "st_calls (_ # es) = st_calls es"

text \<open>
  An event list is quiet when it appends no path, unlinks nothing and sends no
  request; it is silent when it also calls nothing in Streamlit.
\<close>

definition quiet :: "event list \<Rightarrow> bool" where
  "quiet evs \<longleftrightarrow> appended evs = [] \<and> unlinked evs = [] \<and> requests evs = []"

definition silent :: "event list \<Rightarrow> bool" where
  "silent evs \<longleftrightarrow> quiet evs \<and> st_calls evs = []"


text \<open>A content entry that refers to an image, inline or by file id.\<close>

fun is_image_ref :: "content_item \<Rightarrow> bool" where
  "is_image_ref (input_text t) = False"
| "is_image_ref (input_image_url u) = True"
| "is_image_ref (input_image_file_id i) = True"

section \<open>The specification's words, for comparison\<close>

text \<open>
  The extractor as the specification describes it: keep the entries tagged
  \<open>"image_generation_call"\<close>, in order, and base64-decode the \<open>result\<close> of each.
\<close>

fun spec_extract :: "output_item list \<Rightarrow> (exn + bytes) list" where
  "spec_extract [] = []"
| "spec_extract (out # rest) =
     (if otype out = ''image_generation_call'' then b64decode (result out) # spec_extract rest
      else spec_extract rest)"


section \<open>A concrete environment\<close>

text \<open>
  An environment in which everything succeeds: temporary names \<open>f0\<close>, \<open>f1\<close>, ...
  under \<open>/tmp\<close>, a registration endpoint that answers \<open>file-n\<close> to the call number
  \<open>n\<close>, and a generation endpoint that answers with a text entry followed by two
  generated images. It starts from a world without files.
\<close>

definition example_response :: response where
  "example_response =
     \<lparr>output = [\<lparr>otype = ''message'', result = None\<rparr>,
                \<lparr>otype = ''image_generation_call'', result = Some ''aGk=''\<rparr>,
                \<lparr>otype = ''image_generation_call'', result = Some ''eW8=''\<rparr>]\<rparr>"

definition example_env :: env where
  "example_env =
     \<lparr>tempdir = ''/tmp'',
      candidate_names = (\<lambda>n. ''f'' @ str_nat n),
      files_create = (\<lambda>n data purpose. Inr (''file-'' @ str_nat n)),
      responses_create = (\<lambda>n req. Inr example_response),
      unlink_denied = (\<lambda>p. False),
      open_denied = (\<lambda>p. False)\<rparr>"

text \<open>The same environment, with a generation endpoint that answers with text only.\<close>

definition text_only_response :: response where
  "text_only_response = \<lparr>output = [\<lparr>otype = ''message'', result = None\<rparr>]\<rparr>"

definition text_only_env :: env where
  "text_only_env = example_env\<lparr>responses_create := (\<lambda>n req. Inr text_only_response)\<rparr>"

definition empty_world :: world where
  "empty_world = \<lparr>fs = (\<lambda>p. None), names_drawn = 0, api_calls = 0, log = []\<rparr>"

definition example_base :: uploaded_file where
  "example_base = \<lparr>name = ''room.jpg'', ftype = ''image/jpeg'', fsize = 3, getvalue = [1, 2, 3]\<rparr>"

definition example_mask :: uploaded_file where
  "example_mask = \<lparr>name = ''mask.png'', ftype = ''image/png'', fsize = 2, getvalue = [4, 5]\<rparr>"

definition example_launcher_env :: launcher_env where
  "example_launcher_env =
     \<lparr>importable = (\<lambda>package. True),
      sys_executable = ''/usr/bin/python3'',
      subprocess_run = (\<lambda>argv. Completed 0)\<rparr>"

section \<open>Lemmas on the codecs\<close>

lemma in_range64: "(i::byte) < 64 \<Longrightarrow> i \<in> set (map of_nat [0..<64])"
proof -
  assume "i < 64"
  then have "unat i < 64" by (simp add: word_less_nat_alt)
  then have "unat i \<in> set [0..<64]" by simp
  then have "of_nat (unat i) \<in> (of_nat :: nat \<Rightarrow> byte) ` set [0..<64]" by (rule imageI)
  then show ?thesis by simp
qed

lemma a2b_b2a: "i < 64 \<Longrightarrow> table_a2b_base64 (table_b2a_base64 i) = Some i"
proof -
  assume "i < 64"
  then have "i \<in> set (map of_nat [0..<64])" by (rule in_range64)
  moreover have "list_all (\<lambda>i. table_a2b_base64 (table_b2a_base64 i) = Some i) (map of_nat [0..<64])"
    by code_simp
  ultimately show ?thesis unfolding list_all_iff by blast
qed

lemma b2a_not_pad: "i < 64 \<Longrightarrow> table_b2a_base64 i \<noteq> BASE64_PAD"
proof -
  assume "i < 64"
  then have "i \<in> set (map of_nat [0..<64])" by (rule in_range64)
  moreover have "list_all (\<lambda>i. table_b2a_base64 i \<noteq> BASE64_PAD) (map of_nat [0..<64])"
    by code_simp
  ultimately show ?thesis unfolding list_all_iff by blast
qed

lemma b2a_ascii: "i < 64 \<Longrightarrow> table_b2a_base64 i < 128"
proof -
  assume "i < 64"
  then have "i \<in> set (map of_nat [0..<64])" by (rule in_range64)
  moreover have "list_all (\<lambda>i. table_b2a_base64 i < 128) (map of_nat [0..<64])"
    by code_simp
  ultimately show ?thesis unfolding list_all_iff by blast
qed

lemma pad_ascii: "BASE64_PAD < 128"
  by (simp add: BASE64_PAD_def)

text \<open>The masks of the source as bit masks, and the bit-level facts of one group.\<close>

lemma m2: "(3::byte) = mask 2" and m4: "(15::byte) = mask 4" and m6: "(63::byte) = mask 6"
  by (simp_all add: mask_eq_exp_minus_1)

lemma sss: "2 \<le> n \<Longrightarrow> Suc (Suc (n - 2)) = n"
  by simp

lemma byte0:
  "push_bit 2 (drop_bit 2 a) OR drop_bit 4 (push_bit 4 (a AND 3) OR drop_bit 4 b) = (a::byte)"
  unfolding m2
  apply (rule bit_word_eqI)
  apply (auto simp: bit_simps sss)
   apply (rule ccontr, simp add: not_less sss)+
  done

lemma byte1:
  "push_bit 4 ((push_bit 4 (a AND 3) OR drop_bit 4 b) AND 15)
     OR drop_bit 2 (push_bit 2 (b AND 15) OR drop_bit 6 c) = (b::byte)"
  unfolding m2 m4
  apply (rule bit_word_eqI)
  apply (auto simp: bit_simps sss)
   apply (rule ccontr, simp add: not_less sss)+
  done

lemma byte2:
  "push_bit 6 ((push_bit 2 (b AND 15) OR drop_bit 6 c) AND 3) OR (c AND 63) = (c::byte)"
  unfolding m2 m4 m6
  by (rule bit_word_eqI) (auto simp: bit_simps sss)

lemma byte0': "push_bit 2 (drop_bit 2 a) OR drop_bit 4 (push_bit 4 (a AND 3)) = (a::byte)"
  using byte0[of a 0] by simp

lemma byte1':
  "push_bit 4 ((push_bit 4 (a AND 3) OR drop_bit 4 b) AND 15) OR drop_bit 2 (push_bit 2 (b AND 15))
   = (b::byte)"
  using byte1[of a b 0] by simp

lemma lt64_iff: "(x::byte) < 64 \<longleftrightarrow> take_bit 6 x = x"
  using less_mask_eq[of x 6] and_mask_less'[of 6 x] by (auto simp: take_bit_eq_mask)

lemma i0: "drop_bit 2 (a::byte) < 64"
  unfolding lt64_iff by (rule bit_word_eqI) (auto simp: bit_simps dest: bit_imp_le_length)

lemma i1: "push_bit 4 ((a::byte) AND 3) OR drop_bit 4 (b::byte) < 64"
  unfolding lt64_iff m2 by (rule bit_word_eqI) (auto simp: bit_simps dest: bit_imp_le_length)

lemma i1': "push_bit 4 ((a::byte) AND 3) < 64"
  unfolding lt64_iff m2 by (rule bit_word_eqI) (auto simp: bit_simps dest: bit_imp_le_length)

lemma i2: "push_bit 2 ((b::byte) AND 15) OR drop_bit 6 (c::byte) < 64"
  unfolding lt64_iff m4 by (rule bit_word_eqI) (auto simp: bit_simps dest: bit_imp_le_length)

lemma i2': "push_bit 2 ((b::byte) AND 15) < 64"
  unfolding lt64_iff m4 by (rule bit_word_eqI) (auto simp: bit_simps dest: bit_imp_le_length)

lemma i3: "(c::byte) AND 63 < 64"
  unfolding lt64_iff m6 by (rule bit_word_eqI) (auto simp: bit_simps dest: bit_imp_le_length)

text \<open>The decoder on one full group and on the two padded endings.\<close>

lemma a2b_loop_quad:
  assumes "e0 < 64" "e1 < 64" "e2 < 64" "e3 < 64"
  shows "a2b_loop 0 l p out
           (table_b2a_base64 e0 # table_b2a_base64 e1 # table_b2a_base64 e2 # table_b2a_base64 e3 # rest)
         = a2b_loop 0 0 0
             (out @ [push_bit 2 e0 OR drop_bit 4 e1,
                     push_bit 4 (e1 AND 15) OR drop_bit 2 e2,
                     push_bit 6 (e2 AND 3) OR e3]) rest"
  using assms by (simp add: a2b_b2a b2a_not_pad)

lemma a2b_loop_pad2:
  assumes "e0 < 64" "e1 < 64"
  shows "a2b_loop 0 l p out [table_b2a_base64 e0, table_b2a_base64 e1, BASE64_PAD, BASE64_PAD]
         = Inr (out @ [push_bit 2 e0 OR drop_bit 4 e1])"
  using assms by (simp add: a2b_b2a b2a_not_pad)

lemma a2b_loop_pad1:
  assumes "e0 < 64" "e1 < 64" "e2 < 64"
  shows "a2b_loop 0 l p out [table_b2a_base64 e0, table_b2a_base64 e1, table_b2a_base64 e2, BASE64_PAD]
         = Inr (out @ [push_bit 2 e0 OR drop_bit 4 e1, push_bit 4 (e1 AND 15) OR drop_bit 2 e2])"
  using assms by (simp add: a2b_b2a b2a_not_pad)

lemma a2b_loop_b2a: "a2b_loop 0 l p out (b2a_base64 bs) = Inr (out @ bs)"
proof (induction bs arbitrary: out l p rule: b2a_base64.induct)
  case 1
  show ?case by simp
next
  case (2 a)
  show ?case
    by (simp only: b2a_base64.simps a2b_loop_pad2[OF i0 i1'] byte0')
next
  case (3 a b)
  show ?case
    by (simp only: b2a_base64.simps a2b_loop_pad1[OF i0 i1 i2'] byte0 byte1')
next
  case (4 a b c rest)
  have "a2b_loop 0 l p out (b2a_base64 (a # b # c # rest))
        = a2b_loop 0 0 0 (out @ [a, b, c]) (b2a_base64 rest)"
    by (simp only: b2a_base64.simps append_Cons append_Nil a2b_loop_quad[OF i0 i1 i2 i3]
          byte0 byte1 byte2)
  also have "\<dots> = Inr ((out @ [a, b, c]) @ rest)" by (rule 4)
  finally show ?case by simp
qed

lemma b2a_base64_ascii: "\<forall>b \<in> set (b2a_base64 bs). b < 128"
  by (induction bs rule: b2a_base64.induct)
     (simp_all only: b2a_base64.simps list.set ball_simps insert_iff empty_iff set_append ball_Un
        b2a_ascii[OF i0] b2a_ascii[OF i1] b2a_ascii[OF i1'] b2a_ascii[OF i2] b2a_ascii[OF i2']
        b2a_ascii[OF i3] pad_ascii simp_thms)

lemma utf8_valid_ascii: "\<forall>b \<in> set bs. b < 128 \<Longrightarrow> utf8_valid bs"
  by (induction bs) simp_all

lemma unat_byte_lt: "unat (b::byte) < 256"
  using unsigned_less[of b] by simp

lemma of_char_char_of_byte: "of_char (char_of_byte b) = b"
proof -
  have "(of_char (char_of (unat b)) :: byte) = of_nat (of_char (char_of (unat b)))"
    by (simp only: of_nat_of_char)
  also have "\<dots> = of_nat (unat b mod 256)" by simp
  also have "\<dots> = b" by (simp add: unat_byte_lt)
  finally show ?thesis by (simp only: char_of_byte_def)
qed

lemma ascii_char: "b < 128 \<Longrightarrow> (of_char (char_of_byte b) :: nat) < 128"
  by (simp add: char_of_byte_def word_less_nat_alt unat_byte_lt)

lemma b64_roundtrip:
  "decode_utf8 (b64encode bs) = Inr (map char_of_byte (b2a_base64 bs))
   \<and> b64decode (Some (map char_of_byte (b2a_base64 bs))) = Inr bs"
proof -
  let ?e = "b2a_base64 bs"
  let ?s = "map char_of_byte ?e"
  have asc: "\<forall>b \<in> set ?e. b < 128" by (rule b2a_base64_ascii)
  then have "decode_utf8 (b64encode bs) = Inr ?s"
    by (simp add: decode_utf8_def b64encode_def utf8_valid_ascii)
  moreover have "encode_ascii ?s = Inr ?e"
    using asc by (simp add: encode_ascii_def ascii_char of_char_char_of_byte map_idI comp_def)
  then have "b64decode (Some ?s) = Inr bs"
    by (simp add: b64decode_def a2b_base64_def a2b_loop_b2a)
  ultimately show ?thesis by blast
qed

section \<open>Lemmas on the trace\<close>

lemma appended_append: "appended (xs @ ys) = appended xs @ appended ys"
  by (induction xs rule: appended.induct) simp_all

lemma unlinked_append: "unlinked (xs @ ys) = unlinked xs @ unlinked ys"
  by (induction xs rule: unlinked.induct) simp_all

lemma requests_append: "requests (xs @ ys) = requests xs @ requests ys"
  by (induction xs rule: requests.induct) simp_all

lemma st_calls_append: "st_calls (xs @ ys) = st_calls xs @ st_calls ys"
  by (induction xs rule: st_calls.induct) simp_all

lemmas trace_append = appended_append unlinked_append requests_append st_calls_append

lemma log_emit: "log (emit w e) = log w @ [e]"
  by (simp add: emit_def)

lemma log_st: "log (st w c) = log w @ [St c]"
  by (simp add: st_def emit_def)


lemma quiet_simps:
  "quiet []" "quiet (xs @ ys) \<longleftrightarrow> quiet xs \<and> quiet ys"
  "quiet (TempFileCreated p # es) \<longleftrightarrow> quiet es"
  "quiet (FilesCreate data purpose # es) \<longleftrightarrow> quiet es"
  "quiet (FileWrite p data # es) \<longleftrightarrow> quiet es"
  "quiet (St c # es) \<longleftrightarrow> quiet es"
  by (auto simp: quiet_def trace_append)

lemma silent_simps:
  "silent []" "silent (xs @ ys) \<longleftrightarrow> silent xs \<and> silent ys"
  "silent (TempFileCreated p # es) \<longleftrightarrow> silent es"
  "silent (FilesCreate data purpose # es) \<longleftrightarrow> silent es"
  "silent (FileWrite p data # es) \<longleftrightarrow> silent es"
  by (auto simp: silent_def quiet_def trace_append)

lemma silent_quiet: "silent evs \<Longrightarrow> quiet evs"
  by (simp add: silent_def)

lemma mkstemp_inner_log:
  "mkstemp_inner ev w pre suf n = (w', r) \<Longrightarrow> \<exists>evs. log w' = log w @ evs \<and> silent evs"
proof (induction n arbitrary: w)
  case 0
  then show ?case by (auto simp: silent_simps)
next
  case (Suc n)
  show ?case
  proof (cases "fs w (tempdir ev @ ''/'' @ pre @ candidate_names ev (names_drawn w) @ suf)")
    case None
    with Suc.prems have "log w' = log w @ [TempFileCreated (tempdir ev @ ''/'' @ pre @ candidate_names ev (names_drawn w) @ suf)]"
      by (auto simp: Let_def log_emit)
    then show ?thesis by (auto simp: silent_simps)
  next
    case (Some a)
    with Suc.prems have "mkstemp_inner ev (w\<lparr>names_drawn := names_drawn w + 1\<rparr>) pre suf n = (w', r)"
      by (simp add: Let_def)
    from Suc.IH[OF this] show ?thesis by simp
  qed
qed

lemma save_uploaded_file_log:
  "save_uploaded_file ev w f = (w', r) \<Longrightarrow> \<exists>evs. log w' = log w @ evs \<and> silent evs"
  by (auto simp: save_uploaded_file_def split: prod.splits sum.splits dest!: mkstemp_inner_log)

lemma create_file_log:
  "create_file ev w p = (w', r) \<Longrightarrow> \<exists>evs. log w' = log w @ evs \<and> silent evs"
  by (auto simp: create_file_def log_emit silent_simps split: sum.splits)

lemma client_responses_create_log:
  "client_responses_create ev w req = (w', r) \<Longrightarrow> log w' = log w @ [ResponsesCreate req]"
  by (auto simp: client_responses_create_def log_emit)

lemma process_files_log:
  "process_files ev files (w, tf, bs, ids) = ((w', tf', bs', ids'), r) \<Longrightarrow>
     \<exists>evs. log w' = log w @ evs \<and> tf' = tf @ appended evs \<and> unlinked evs = []
          \<and> requests evs = [] \<and> st_calls evs = []"
proof (induction files arbitrary: w tf bs ids)
  case Nil
  then show ?case by simp
next
  case (Cons f files)
  obtain w1 r1 where s: "save_uploaded_file ev w f = (w1, r1)" by (cases "save_uploaded_file ev w f")
  from save_uploaded_file_log[OF s] obtain e1 where e1: "log w1 = log w @ e1" "silent e1" by blast
  show ?case
  proof (cases r1)
    case (Inl e)
    with Cons.prems s e1 show ?thesis by (auto simp: silent_def quiet_def)
  next
    case (Inr p)
    let ?w2 = "emit w1 (TempFilesAppend p)"
    have l2: "log ?w2 = log w @ (e1 @ [TempFilesAppend p])" using e1 by (simp add: log_emit)
    show ?thesis
    proof (cases "encode_image ?w2 p")
      case (Inl e)
      with Cons.prems s Inr have "w' = ?w2" "tf' = tf @ [p]" by (simp_all add: Let_def)
      with l2 e1 show ?thesis by (auto simp: silent_def quiet_def trace_append)
    next
      case enc: (Inr b)
      obtain w3 r3 where c: "create_file ev ?w2 p = (w3, r3)" by (cases "create_file ev ?w2 p")
      from create_file_log[OF c] obtain e3 where e3: "log w3 = log ?w2 @ e3" "silent e3" by blast
      show ?thesis
      proof (cases r3)
        case (Inl e)
        with Cons.prems s Inr enc c have "w' = w3" "tf' = tf @ [p]" by (simp_all add: Let_def)
        with l2 e1 e3 show ?thesis by (auto simp: silent_def quiet_def trace_append)
      next
        case id: (Inr i)
        with Cons.prems s Inr enc c
        have rec: "process_files ev files (w3, tf @ [p], bs @ [b], ids @ [i]) = ((w', tf', bs', ids'), r)"
          by (simp add: Let_def)
        from Cons.IH[OF rec] obtain e4 where e4: "log w' = log w3 @ e4" "tf' = (tf @ [p]) @ appended e4"
          "unlinked e4 = []" "requests e4 = []" "st_calls e4 = []" by blast
        let ?evs = "e1 @ [TempFilesAppend p] @ e3 @ e4"
        have "log w' = log w @ ?evs" using e4 e3 l2 by simp
        moreover have "tf' = tf @ appended ?evs"
          using e4 e1 e3 by (simp add: silent_def quiet_def trace_append)
        moreover have "unlinked ?evs = []" "requests ?evs = []" "st_calls ?evs = []"
          using e4 e1 e3 by (simp_all add: silent_def quiet_def trace_append)
        ultimately show ?thesis by blast
      qed
    qed
  qed
qed

lemma show_images_log:
  "show_images w i xs = (w', r) \<Longrightarrow> \<exists>evs. log w' = log w @ evs \<and> quiet evs"
proof (induction xs arbitrary: w i)
  case Nil
  then show ?case by (simp add: quiet_simps)
next
  case (Cons x xs)
  show ?case
  proof (cases "b64decode x")
    case (Inl e)
    with Cons.prems show ?thesis by (simp add: quiet_simps)
  next
    case (Inr b)
    let ?w2 = "st (st w (st_image b (''Generated Image '' @ str_nat (i + 1))))
                 (st_download_button (inbox_tray @ '' Download Image '' @ str_nat (i + 1))
                    b (''generated_image_'' @ str_nat (i + 1) @ ''.png'') ''image/png'')"
    from Cons.prems Inr have "show_images ?w2 (i + 1) xs = (w', r)" by (simp add: Let_def)
    from Cons.IH[OF this] obtain evs where "log w' = log ?w2 @ evs" "quiet evs" by blast
    then show ?thesis by (auto simp: log_st quiet_simps)
  qed
qed

lemma generator_results_log:
  "generator_results w resp = (w', r) \<Longrightarrow> \<exists>evs. log w' = log w @ evs \<and> quiet evs"
proof (cases "generator_image_data resp = []")
  case True
  assume "generator_results w resp = (w', r)"
  with True have "log w' = log w @ [St (st_error (cross_mark @ '' No images were generated''))]"
    by (auto simp: generator_results_def Let_def log_st)
  then show ?thesis by (auto simp: quiet_simps)
next
  case False
  assume "generator_results w resp = (w', r)"
  with False obtain w0 where w0: "show_images w0 0 (generator_image_data resp) = (w', r)"
    "log w0 = log w @ [St (st_success (check_mark @ '' Image generated successfully!'')), St (st_subheader (artist_palette @ '' Generated Images''))]"
    by (auto simp: generator_results_def Let_def log_st)
  from show_images_log[OF w0(1)] w0(2) show ?thesis by (auto simp: quiet_simps)
qed

lemma generator_try_log:
  assumes "generator_try ev w files prompt = (w', tf, r)"
  shows "\<exists>evs. log w' = log w @ evs \<and> appended evs = tf \<and> unlinked evs = []"
proof -
  obtain w1 tf1 bs ids r1 where p: "process_files ev files (w, [], [], []) = ((w1, tf1, bs, ids), r1)"
    by (metis prod_cases4 surj_pair)
  from process_files_log[OF p] obtain e1 where
    e1: "log w1 = log w @ e1" "tf1 = appended e1" "unlinked e1 = []" by auto
  show ?thesis
  proof (cases r1)
    case (Some e)
    with assms p e1 show ?thesis by (simp add: generator_try_def)
  next
    case None
    let ?req = "generator_request (compose_content prompt bs ids)"
    obtain w2 r2 where c: "client_responses_create ev w1 ?req = (w2, r2)"
      by (cases "client_responses_create ev w1 ?req")
    note l2 = client_responses_create_log[OF c]
    show ?thesis
    proof (cases r2)
      case (Inl e)
      with assms p None c have "w' = w2" "tf = tf1" by (simp_all add: generator_try_def)
      with e1 l2 show ?thesis by (auto simp: trace_append)
    next
      case (Inr resp)
      obtain w3 r3 where g: "generator_results w2 resp = (w3, r3)"
        by (cases "generator_results w2 resp")
      from generator_results_log[OF g] obtain e3 where e3: "log w3 = log w2 @ e3" "quiet e3" by blast
      from assms p None c Inr g have "w' = w3" "tf = tf1" by (simp_all add: generator_try_def)
      with e1 l2 e3 have "log w' = log w @ (e1 @ [ResponsesCreate ?req] @ e3)"
        "appended (e1 @ [ResponsesCreate ?req] @ e3) = tf" "unlinked (e1 @ [ResponsesCreate ?req] @ e3) = []"
        by (simp_all add: trace_append quiet_def)
      then show ?thesis by blast
    qed
  qed
qed

lemma log_os_unlink: "log (fst (os_unlink ev w p)) = log w @ [Unlink p]"
  by (simp add: os_unlink_def Let_def log_emit split: option.splits)

lemma log_cleanup: "log (cleanup ev w ps) = log w @ map Unlink ps"
  by (induction ps arbitrary: w) (simp_all add: log_os_unlink)

lemma log_except_Exception:
  "\<exists>ui. log (fst (except_Exception w r)) = log w @ map St ui"
proof (cases "\<exists>e. r = Some e \<and> is_Exception e")
  case True
  then obtain e where "r = Some e" "is_Exception e" by blast
  then have "log (fst (except_Exception w r)) = log w @ map St [st_error (cross_mark @ '' Error: '' @ str_exn e), st_exception e]"
    by (simp add: except_Exception_def log_st)
  then show ?thesis by blast
next
  case False
  then have "log (fst (except_Exception w r)) = log w @ map St []"
    by (auto simp: except_Exception_def split: option.splits)
  then show ?thesis by blast
qed

lemma finally_except_log:
  assumes "log w1 = log w @ evs" "appended evs = tf" "unlinked evs = []"
  shows "\<exists>evs ui. log (fst (except_Exception (cleanup ev w1 tf) r)) = log w @ evs @ map Unlink tf @ map St ui
            \<and> appended evs = tf \<and> unlinked evs = []"
proof -
  from log_except_Exception[of "cleanup ev w1 tf" r] obtain ui where
    "log (fst (except_Exception (cleanup ev w1 tf) r)) = log (cleanup ev w1 tf) @ map St ui" by blast
  with assms have "log (fst (except_Exception (cleanup ev w1 tf) r)) = log w @ evs @ map Unlink tf @ map St ui"
    by (simp add: log_cleanup)
  with assms show ?thesis by blast
qed

lemma guard_exit_log:
  "\<exists>evs ps ui. log (st w c) = log w @ evs @ map Unlink ps @ map St ui \<and> appended evs = ps \<and> unlinked evs = []"
proof -
  have "log (st w c) = log w @ [] @ map Unlink [] @ map St [c]" by (simp add: log_st)
  moreover have "appended [] = []" "unlinked [] = []" by simp_all
  ultimately show ?thesis by blast
qed

lemma generator_clicked_cleanup:
  "\<exists>evs ps ui. log (fst (generator_clicked ev w files prompt)) = log w @ evs @ map Unlink ps @ map St ui
      \<and> appended evs = ps \<and> unlinked evs = []"
proof (cases "files = [] \<or> prompt = []")
  case True
  then show ?thesis using guard_exit_log by (auto simp: generator_clicked_def)
next
  case False
  obtain w1 tf r where t: "generator_try ev w files prompt = (w1, tf, r)"
    by (metis surj_pair)
  from generator_try_log[OF t] obtain evs where "log w1 = log w @ evs" "appended evs = tf" "unlinked evs = []"
    by blast
  from finally_except_log[OF this, of ev r] False t show ?thesis
    by (auto simp: generator_clicked_def)
qed

lemma open_wb_write_log:
  "open_wb_write ev w p data = (w', r) \<Longrightarrow> \<exists>evs. log w' = log w @ evs \<and> quiet evs"
  by (auto simp: open_wb_write_def log_emit quiet_simps split: if_splits)

lemma masking_results_log:
  "masking_results ev w resp fname = (w', r) \<Longrightarrow> \<exists>evs. log w' = log w @ evs \<and> quiet evs"
  by (auto simp: masking_results_def Let_def log_st quiet_simps
           split: list.splits sum.splits prod.splits option.splits dest!: open_wb_write_log)

lemma masking_try_log:
  assumes "masking_try ev w base_image mask_image prompt qual fname = (w', tf, r)"
  shows "\<exists>evs. log w' = log w @ evs \<and> appended evs = tf \<and> unlinked evs = []"
  using assms
  by (auto simp: masking_try_def log_emit trace_append quiet_def silent_def
           split: prod.splits sum.splits
           dest!: save_uploaded_file_log create_file_log masking_results_log
                  client_responses_create_log)

lemma masking_clicked_cleanup:
  "\<exists>evs ps ui. log (fst (masking_clicked ev w base_image mask_image prompt qual fname))
        = log w @ evs @ map Unlink ps @ map St ui
      \<and> appended evs = ps \<and> unlinked evs = []"
proof (cases "base_image = None \<or> mask_image = None \<or> prompt = []")
  case True
  then show ?thesis using guard_exit_log
    by (auto simp: masking_clicked_def split: option.splits)
next
  case False
  then obtain b m where bm: "base_image = Some b" "mask_image = Some m" "prompt \<noteq> []" by auto
  obtain w1 tf r where t: "masking_try ev w b m prompt qual fname = (w1, tf, r)"
    by (metis surj_pair)
  from masking_try_log[OF t] obtain evs where "log w1 = log w @ evs" "appended evs = tf" "unlinked evs = []"
    by blast
  from finally_except_log[OF this, of ev r] bm t show ?thesis
    by (auto simp: masking_clicked_def)
qed

text \<open>Independence of which deletions the system refuses.\<close>

lemma mkstemp_inner_unlink_denied:
  "mkstemp_inner (ev\<lparr>unlink_denied := d\<rparr>) w pre suf n = mkstemp_inner ev w pre suf n"
  by (induction n arbitrary: w) (simp_all add: Let_def split: option.split)

lemma save_uploaded_file_unlink_denied:
  "save_uploaded_file (ev\<lparr>unlink_denied := d\<rparr>) w f = save_uploaded_file ev w f"
  by (simp add: save_uploaded_file_def mkstemp_inner_unlink_denied)

lemma create_file_unlink_denied:
  "create_file (ev\<lparr>unlink_denied := d\<rparr>) w p = create_file ev w p"
  by (simp add: create_file_def split: sum.split)

lemma client_responses_create_unlink_denied:
  "client_responses_create (ev\<lparr>unlink_denied := d\<rparr>) w req = client_responses_create ev w req"
  by (simp add: client_responses_create_def)

lemma open_wb_write_unlink_denied:
  "open_wb_write (ev\<lparr>unlink_denied := d\<rparr>) w p data = open_wb_write ev w p data"
  by (simp add: open_wb_write_def)

lemma process_files_unlink_denied:
  "process_files (ev\<lparr>unlink_denied := d\<rparr>) files state = process_files ev files state"
proof (induction files arbitrary: state)
  case Nil
  show ?case by simp
next
  case (Cons f files)
  obtain w tf bs ids where st: "state = (w, tf, bs, ids)" by (metis prod_cases4)
  show ?case
    unfolding st
    by (simp add: save_uploaded_file_unlink_denied create_file_unlink_denied Cons.IH Let_def
             split: prod.splits sum.splits)
qed

lemma generator_try_unlink_denied:
  "generator_try (ev\<lparr>unlink_denied := d\<rparr>) w files prompt = generator_try ev w files prompt"
  unfolding generator_try_def process_files_unlink_denied client_responses_create_unlink_denied
  by (rule refl)

lemma masking_results_unlink_denied:
  "masking_results (ev\<lparr>unlink_denied := d\<rparr>) w resp fname = masking_results ev w resp fname"
  unfolding masking_results_def open_wb_write_unlink_denied by (rule refl)

lemma masking_try_unlink_denied:
  "masking_try (ev\<lparr>unlink_denied := d\<rparr>) w b m prompt qual fname = masking_try ev w b m prompt qual fname"
  unfolding masking_try_def save_uploaded_file_unlink_denied create_file_unlink_denied
    client_responses_create_unlink_denied masking_results_unlink_denied
  by (rule refl)

lemma except_Exception_log:
  "log w = log v \<Longrightarrow>
     log (fst (except_Exception w r)) = log (fst (except_Exception v r))
     \<and> snd (except_Exception w r) = snd (except_Exception v r)"
  by (simp add: except_Exception_def log_st split: option.splits)

lemma generator_clicked_unlink_denied:
  "log (fst (generator_clicked (ev\<lparr>unlink_denied := d\<rparr>) w files prompt))
     = log (fst (generator_clicked ev w files prompt))
   \<and> snd (generator_clicked (ev\<lparr>unlink_denied := d\<rparr>) w files prompt)
     = snd (generator_clicked ev w files prompt)"
proof -
  obtain w1 tf r where t: "generator_try ev w files prompt = (w1, tf, r)"
    by (metis surj_pair)
  have "log (cleanup (ev\<lparr>unlink_denied := d\<rparr>) w1 tf) = log (cleanup ev w1 tf)"
    by (simp add: log_cleanup)
  from except_Exception_log[OF this, of r] t show ?thesis
    by (simp add: generator_clicked_def generator_try_unlink_denied)
qed

lemma masking_clicked_unlink_denied:
  "log (fst (masking_clicked (ev\<lparr>unlink_denied := d\<rparr>) w bi mi prompt qual fname))
     = log (fst (masking_clicked ev w bi mi prompt qual fname))
   \<and> snd (masking_clicked (ev\<lparr>unlink_denied := d\<rparr>) w bi mi prompt qual fname)
     = snd (masking_clicked ev w bi mi prompt qual fname)"
proof (cases "bi = None \<or> mi = None \<or> prompt = []")
  case True
  then show ?thesis
    by (auto simp: masking_clicked_def split: option.splits)
next
  case False
  then obtain b m where bm: "bi = Some b" "mi = Some m" "prompt \<noteq> []" by auto
  obtain w1 tf r where t: "masking_try ev w b m prompt qual fname = (w1, tf, r)"
    by (metis surj_pair)
  have "log (cleanup (ev\<lparr>unlink_denied := d\<rparr>) w1 tf) = log (cleanup ev w1 tf)"
    by (simp add: log_cleanup)
  from except_Exception_log[OF this, of r] t bm show ?thesis
    by (simp add: masking_clicked_def masking_try_unlink_denied)
qed

lemma unlinked_map_Unlink: "unlinked (map Unlink ps) = ps"
  by (induction ps) simp_all

lemma unlinked_map_St: "unlinked (map St ui) = []"
  by (induction ui) simp_all

section \<open>Lemmas on temporary files\<close>







lemma mkstemp_inner_Inr:
  "mkstemp_inner ev w pre suf n = (w', Inr p) \<Longrightarrow>
     fs w p = None \<and> fs w' = (fs w)(p \<mapsto> []) \<and> api_calls w' = api_calls w
     \<and> (\<exists>k. p = tempdir ev @ ''/'' @ pre @ candidate_names ev k @ suf)"
proof (induction n arbitrary: w)
  case 0
  then show ?case by simp
next
  case (Suc n)
  let ?file = "tempdir ev @ ''/'' @ pre @ candidate_names ev (names_drawn w) @ suf"
  show ?case
  proof (cases "fs w ?file")
    case None
    with Suc.prems have "p = ?file" "w' = emit (w\<lparr>names_drawn := names_drawn w + 1, fs := (fs w)(?file \<mapsto> [])\<rparr>) (TempFileCreated ?file)"
      by (auto simp: Let_def)
    with None show ?thesis by (auto simp: emit_def)
  next
    case (Some a)
    with Suc.prems have "mkstemp_inner ev (w\<lparr>names_drawn := names_drawn w + 1\<rparr>) pre suf n = (w', Inr p)"
      by (simp add: Let_def)
    from Suc.IH[OF this] show ?thesis by simp
  qed
qed


lemma save_uploaded_file_Inr:
  assumes "save_uploaded_file ev w f = (w', Inr p)"
  shows "fs w p = None \<and> fs w' = (fs w)(p \<mapsto> getvalue f) \<and> api_calls w' = api_calls w
         \<and> suffix (''.'' @ last (split CHR ''.'' (name f))) p"
proof -
  from assms obtain w1 where m: "mkstemp_inner ev w ''tmp'' (''.'' @ last (split CHR ''.'' (name f))) TMP_MAX = (w1, Inr p)"
    and w': "w' = w1\<lparr>fs := (fs w1)(p \<mapsto> getvalue f)\<rparr>"
    by (auto simp: save_uploaded_file_def split: prod.splits sum.splits)
  from mkstemp_inner_Inr[OF m] obtain k where
    k: "fs w p = None" "fs w1 = (fs w)(p \<mapsto> [])" "api_calls w1 = api_calls w"
       "p = tempdir ev @ ''/'' @ ''tmp'' @ candidate_names ev k @ (''.'' @ last (split CHR ''.'' (name f)))"
    by blast
  have "suffix (''.'' @ last (split CHR ''.'' (name f))) p"
    unfolding k(4) suffix_def by (metis append.assoc)
  with k w' show ?thesis by simp
qed


section \<open>Lemmas on the extraction\<close>


lemma map_result_filter_spec:
  "map (\<lambda>out. b64decode (result out)) (filter (\<lambda>out. otype out = ''image_generation_call'') outs)
   = spec_extract outs"
  by (induction outs) simp_all

lemma comprehension_filter:
  "[result out. out \<leftarrow> outs, otype out = ''image_generation_call'']
   = map result (filter (\<lambda>out. otype out = ''image_generation_call'') outs)"
  by (induction outs) simp_all

lemma masking_image_data_eq: "masking_image_data resp = generator_image_data resp"
  by (simp add: masking_image_data_def generator_image_data_def comprehension_filter)

lemma generator_image_data_spec: "map b64decode (generator_image_data resp) = spec_extract (output resp)"
  by (simp add: generator_image_data_def map_result_filter_spec comp_def)





section \<open>Lemmas on the launchers\<close>

lemma missing_packages_filter:
  "missing_packages lenv = filter (\<lambda>package. \<not> importable lenv package) required_packages"
  by (simp add: missing_packages_def required_packages_def)

lemma check_dependencies_missing:
  assumes "\<exists>package \<in> {''streamlit'', ''openai'', ''requests'', ''PIL''}. \<not> importable lenv package"
  shows "snd (check_dependencies lenv) = False
         \<and> (\<forall>argv. SubprocessRun argv \<notin> set (fst (check_dependencies lenv)))"
proof -
  from assms have "missing_packages lenv \<noteq> []"
    by (auto simp: missing_packages_filter required_packages_def filter_empty_conv)
  then show ?thesis by (auto simp: check_dependencies_def Let_def)
qed

lemma check_dependencies_present:
  assumes "\<forall>package \<in> {''streamlit'', ''openai'', ''requests'', ''PIL''}. importable lenv package"
  shows "check_dependencies lenv = ([], True)"
proof -
  from assms have "missing_packages lenv = []"
    by (simp add: missing_packages_filter required_packages_def)
  then show ?thesis by (simp add: check_dependencies_def)
qed

lemma check_and_run_missing:
  assumes "\<exists>package \<in> {''streamlit'', ''openai'', ''requests'', ''PIL''}. \<not> importable lenv package"
  shows "snd (check_and_run lenv argv) = 1
         \<and> (\<forall>a. SubprocessRun a \<notin> set (fst (check_and_run lenv argv)))"
  using check_dependencies_missing[OF assms]
  by (cases "check_dependencies lenv") (auto simp: check_and_run_def)

lemma check_and_run_present:
  assumes "\<forall>package \<in> {''streamlit'', ''openai'', ''requests'', ''PIL''}. importable lenv package"
  shows "(\<forall>a. SubprocessRun a \<in> set (fst (check_and_run lenv argv)) \<longleftrightarrow> a = argv)
         \<and> (\<forall>e. subprocess_run lenv argv = RaisedException e \<longrightarrow> snd (check_and_run lenv argv) = 1)
         \<and> (\<forall>rc. subprocess_run lenv argv = Completed rc \<longrightarrow> snd (check_and_run lenv argv) = 0)
         \<and> (subprocess_run lenv argv = RaisedKeyboardInterrupt \<longrightarrow> snd (check_and_run lenv argv) = 0)"
  using check_dependencies_present[OF assms]
  by (cases "subprocess_run lenv argv") (auto simp: check_and_run_def starting_messages_def)

lemma run_image_generator_main_eq:
  "snd (run_image_generator_main lenv)
     = snd (check_and_run lenv [sys_executable lenv, ''-m'', ''streamlit'', ''run'', ''streamlit_app.py'',
              ''--server.port'', ''8501'', ''--server.address'', ''localhost''])
   \<and> (\<forall>a. SubprocessRun a \<in> set (fst (run_image_generator_main lenv)) \<longleftrightarrow>
         SubprocessRun a \<in> set (fst (check_and_run lenv [sys_executable lenv, ''-m'', ''streamlit'', ''run'',
              ''streamlit_app.py'', ''--server.port'', ''8501'', ''--server.address'', ''localhost''])))"
  by (auto simp: run_image_generator_main_def split: prod.splits)

lemma mask_runner_main_eq:
  "snd (mask_runner_main lenv)
     = snd (check_and_run lenv [sys_executable lenv, ''-m'', ''streamlit'', ''run'', ''image_masking_streamlit.py'',
              ''--server.port'', ''8502'', ''--server.address'', ''localhost''])
   \<and> (\<forall>a. SubprocessRun a \<in> set (fst (mask_runner_main lenv)) \<longleftrightarrow>
         SubprocessRun a \<in> set (fst (check_and_run lenv [sys_executable lenv, ''-m'', ''streamlit'', ''run'',
              ''image_masking_streamlit.py'', ''--server.port'', ''8502'', ''--server.address'', ''localhost''])))"
  by (auto simp: mask_runner_main_def split: prod.splits)

section \<open>Lemmas on the composed requests\<close>

lemma emit_fields: "fs (emit w e) = fs w" "api_calls (emit w e) = api_calls w"
  by (simp_all add: emit_def)

lemma requests_map_Unlink: "requests (map Unlink ps) = []"
  by (induction ps) simp_all

lemma requests_map_St: "requests (map St ui) = []"
  by (induction ui) simp_all

lemma st_calls_map_Unlink: "st_calls (map Unlink ps) = []"
  by (induction ps) simp_all

lemma finally_except_requests:
  "requests (log (fst (except_Exception (cleanup ev w tf) r))) = requests (log w)"
proof -
  from log_except_Exception[of "cleanup ev w tf" r] obtain ui where
    "log (fst (except_Exception (cleanup ev w tf) r)) = log (cleanup ev w tf) @ map St ui" by blast
  then show ?thesis
    by (simp add: log_cleanup requests_append requests_map_Unlink requests_map_St)
qed

lemma finally_no_exception:
  "snd (except_Exception (cleanup ev w tf) None) = None
   \<and> st_calls (log (fst (except_Exception (cleanup ev w tf) None))) = st_calls (log w)"
  by (simp add: except_Exception_def log_cleanup st_calls_append st_calls_map_Unlink)

lemma encode_image_Some:
  "fs w p = Some data \<Longrightarrow> encode_image w p = Inr (map char_of_byte (b64encode data))"
  using b64_roundtrip[of data] by (simp add: encode_image_def open_rb_def b64encode_def)

lemma create_file_Inr:
  assumes "create_file ev w p = (w', Inr file_id)"
  shows "\<exists>data. fs w p = Some data \<and> files_create ev (api_calls w) data ''vision'' = Inr file_id
                \<and> api_calls w' = api_calls w + 1 \<and> fs w' = fs w"
  using assms
  by (cases "fs w p") (auto simp: create_file_def open_rb_def emit_def)

lemma compose_content_foldl:
  "foldl (\<lambda>content_list x. content_list @ [f x]) c xs = c @ map f xs"
  by (induction xs arbitrary: c) simp_all

lemma compose_content_eq:
  "compose_content prompt base64_images file_ids
   = input_text prompt
     # map (\<lambda>base64_image. input_image_url (''data:image/jpeg;base64,'' @ base64_image)) base64_images
     @ map input_image_file_id file_ids"
  by (simp add: compose_content_def compose_content_foldl)

lemma process_files_ok:
  "process_files ev files (w, tf, bs, ids) = ((w', tf', bs', ids'), None) \<Longrightarrow>
     bs' = bs @ map (\<lambda>f. map char_of_byte (b64encode (getvalue f))) files
     \<and> api_calls w' = api_calls w + length files
     \<and> (\<exists>new. ids' = ids @ new \<and> length new = length files
           \<and> (\<forall>i<length files.
                 files_create ev (api_calls w + i) (getvalue (files ! i)) ''vision'' = Inr (new ! i)))"
proof (induction files arbitrary: w tf bs ids)
  case Nil
  then show ?case by simp
next
  case (Cons f files)
  obtain w1 r1 where s: "save_uploaded_file ev w f = (w1, r1)" by (cases "save_uploaded_file ev w f")
  from Cons.prems s obtain p where r1: "r1 = Inr p" by (cases r1) auto
  note sv = save_uploaded_file_Inr[OF s[unfolded r1]]
  let ?w2 = "emit w1 (TempFilesAppend p)"
  have fsp: "fs ?w2 p = Some (getvalue f)" using sv by (simp add: emit_fields)
  have enc: "encode_image ?w2 p = Inr (map char_of_byte (b64encode (getvalue f)))"
    by (rule encode_image_Some[OF fsp])
  obtain w3 r3 where c: "create_file ev ?w2 p = (w3, r3)" by (cases "create_file ev ?w2 p")
  from Cons.prems s r1 enc c obtain i where r3: "r3 = Inr i" by (cases r3) (auto simp: Let_def)
  from create_file_Inr[OF c[unfolded r3]] fsp sv
  have cr: "files_create ev (api_calls w) (getvalue f) ''vision'' = Inr i" "api_calls w3 = api_calls w + 1"
    by (auto simp: emit_fields)
  from Cons.prems s r1 enc c r3
  have rec: "process_files ev files (w3, tf @ [p], bs @ [map char_of_byte (b64encode (getvalue f))], ids @ [i])
             = ((w', tf', bs', ids'), None)"
    by (simp add: Let_def)
  from Cons.IH[OF rec] obtain new where
    ih: "bs' = (bs @ [map char_of_byte (b64encode (getvalue f))]) @ map (\<lambda>f. map char_of_byte (b64encode (getvalue f))) files"
        "api_calls w' = api_calls w3 + length files"
        "ids' = (ids @ [i]) @ new" "length new = length files"
        "\<forall>j<length files. files_create ev (api_calls w3 + j) (getvalue (files ! j)) ''vision'' = Inr (new ! j)"
    by blast
  have "\<forall>j<length (f # files).
          files_create ev (api_calls w + j) (getvalue ((f # files) ! j)) ''vision'' = Inr ((i # new) ! j)"
  proof (intro allI impI)
    fix j assume "j < length (f # files)"
    then show "files_create ev (api_calls w + j) (getvalue ((f # files) ! j)) ''vision'' = Inr ((i # new) ! j)"
      using cr ih(5) by (cases j) simp_all
  qed
  moreover have "ids' = ids @ (i # new)" "length (i # new) = length (f # files)"
    using ih by simp_all
  ultimately show ?case using ih(1,2) cr(2) by auto
qed

lemma generator_clicked_after_process:
  assumes "valid_files \<noteq> []" "prompt \<noteq> []"
    and "process_files ev valid_files (w, [], [], []) = ((w1, tf, bs, ids), None)"
  shows "requests (log (fst (generator_clicked ev w valid_files prompt)))
         = requests (log w) @ [generator_request (compose_content prompt bs ids)]"
proof -
  let ?req = "generator_request (compose_content prompt bs ids)"
  from process_files_log[OF assms(3)] have r1: "requests (log w1) = requests (log w)"
    by (auto simp: requests_append)
  obtain w2 r2 where c: "client_responses_create ev w1 ?req = (w2, r2)"
    by (cases "client_responses_create ev w1 ?req")
  have l2: "requests (log w2) = requests (log w) @ [?req]"
    using client_responses_create_log[OF c] r1 by (simp add: requests_append)
  obtain w3 r where t: "generator_try ev w valid_files prompt = (w3, tf, r)" "requests (log w3) = requests (log w2)"
  proof (cases r2)
    case (Inl e)
    with assms(3) c have "generator_try ev w valid_files prompt = (w2, tf, Some e)"
      by (simp add: generator_try_def)
    then show ?thesis using that by blast
  next
    case (Inr resp)
    obtain w3 r3 where g: "generator_results w2 resp = (w3, r3)" by (cases "generator_results w2 resp")
    from generator_results_log[OF g] have "requests (log w3) = requests (log w2)"
      by (auto simp: quiet_def requests_append)
    moreover from assms(3) c Inr g have "generator_try ev w valid_files prompt = (w3, tf, r3)"
      by (simp add: generator_try_def)
    ultimately show ?thesis using that by blast
  qed
  from assms(1,2) t(1) have "fst (generator_clicked ev w valid_files prompt)
      = fst (except_Exception (cleanup ev w3 tf) r)"
    by (simp add: generator_clicked_def)
  then show ?thesis using t(2) l2 by (simp add: finally_except_requests)
qed

text \<open>
  The masking handler up to the request, when both saves and both registrations
  succeed: what the intermediate worlds hold.
\<close>

lemma masking_saved_and_registered:
  assumes s1: "save_uploaded_file ev w base_image = (w1, Inr base_path)"
    and s2: "save_uploaded_file ev (emit w1 (TempFilesAppend base_path)) mask_image = (w2, Inr mask_path)"
    and c1: "create_file ev (emit w2 (TempFilesAppend mask_path)) base_path = (w3, Inr base_file_id)"
    and c2: "create_file ev w3 mask_path = (w4, Inr mask_file_id)"
  shows "files_create ev (api_calls w) (getvalue base_image) ''vision'' = Inr base_file_id"
    and "files_create ev (api_calls w + 1) (getvalue mask_image) ''vision'' = Inr mask_file_id"
    and "api_calls w4 = api_calls w + 2"
    and "requests (log w4) = requests (log w)"
    and "st_calls (log w4) = st_calls (log w)"
proof -
  note a1 = save_uploaded_file_Inr[OF s1]
  note a2 = save_uploaded_file_Inr[OF s2]
  have ne: "mask_path \<noteq> base_path" using a1 a2 by (auto simp: emit_fields)
  have f2: "fs (emit w2 (TempFilesAppend mask_path)) base_path = Some (getvalue base_image)"
    "fs (emit w2 (TempFilesAppend mask_path)) mask_path = Some (getvalue mask_image)"
    using a1 a2 ne by (simp_all add: emit_fields)
  have ac2: "api_calls (emit w2 (TempFilesAppend mask_path)) = api_calls w"
    using a1 a2 by (simp add: emit_fields)
  from create_file_Inr[OF c1] f2 ac2
  have b: "files_create ev (api_calls w) (getvalue base_image) ''vision'' = Inr base_file_id"
    "api_calls w3 = api_calls w + 1" "fs w3 mask_path = Some (getvalue mask_image)"
    by auto
  from create_file_Inr[OF c2] b
  have m: "files_create ev (api_calls w + 1) (getvalue mask_image) ''vision'' = Inr mask_file_id"
    "api_calls w4 = api_calls w + 2"
    by auto
  from save_uploaded_file_log[OF s1] obtain e1 where e1: "log w1 = log w @ e1" "silent e1" by blast
  from save_uploaded_file_log[OF s2] obtain e2 where
    e2: "log w2 = log (emit w1 (TempFilesAppend base_path)) @ e2" "silent e2" by blast
  from create_file_log[OF c1] obtain e3 where
    e3: "log w3 = log (emit w2 (TempFilesAppend mask_path)) @ e3" "silent e3" by blast
  from create_file_log[OF c2] obtain e4 where e4: "log w4 = log w3 @ e4" "silent e4" by blast
  have l: "log w4 = log w @ e1 @ [TempFilesAppend base_path] @ e2 @ [TempFilesAppend mask_path] @ e3 @ e4"
    using e1 e2 e3 e4 by (simp add: log_emit)
  show "files_create ev (api_calls w) (getvalue base_image) ''vision'' = Inr base_file_id" by (rule b(1))
  show "files_create ev (api_calls w + 1) (getvalue mask_image) ''vision'' = Inr mask_file_id" by (rule m(1))
  show "api_calls w4 = api_calls w + 2" by (rule m(2))
  show "requests (log w4) = requests (log w)"
    using e1 e2 e3 e4 unfolding l by (simp add: silent_def quiet_def requests_append)
  show "st_calls (log w4) = st_calls (log w)"
    using e1 e2 e3 e4 unfolding l by (simp add: silent_def st_calls_append)
qed

lemma masking_try_after_registration:
  assumes s1: "save_uploaded_file ev w base_image = (w1, Inr base_path)"
    and s2: "save_uploaded_file ev (emit w1 (TempFilesAppend base_path)) mask_image = (w2, Inr mask_path)"
    and c1: "create_file ev (emit w2 (TempFilesAppend mask_path)) base_path = (w3, Inr base_file_id)"
    and c2: "create_file ev w3 mask_path = (w4, Inr mask_file_id)"
  shows "masking_try ev w base_image mask_image prompt qual fname
         = (case client_responses_create ev w4 (masking_request prompt base_file_id qual mask_file_id) of
              (w5, Inl e) \<Rightarrow> (w5, [base_path, mask_path], Some e)
            | (w5, Inr resp) \<Rightarrow>
                (case masking_results ev w5 resp fname of
                   (w6, raised) \<Rightarrow> (w6, [base_path, mask_path], raised)))"
  by (simp add: masking_try_def s1 s2 c1 c2)

lemma masking_clicked_after_registration:
  assumes "prompt \<noteq> []"
    and s1: "save_uploaded_file ev w base_image = (w1, Inr base_path)"
    and s2: "save_uploaded_file ev (emit w1 (TempFilesAppend base_path)) mask_image = (w2, Inr mask_path)"
    and c1: "create_file ev (emit w2 (TempFilesAppend mask_path)) base_path = (w3, Inr base_file_id)"
    and c2: "create_file ev w3 mask_path = (w4, Inr mask_file_id)"
  shows "requests (log (fst (masking_clicked ev w (Some base_image) (Some mask_image) prompt qual fname)))
         = requests (log w) @ [masking_request prompt base_file_id qual mask_file_id]"
proof -
  let ?req = "masking_request prompt base_file_id qual mask_file_id"
  note r4 = masking_saved_and_registered(4)[OF s1 s2 c1 c2]
  obtain w5 r5 where c: "client_responses_create ev w4 ?req = (w5, r5)"
    by (cases "client_responses_create ev w4 ?req")
  have l5: "requests (log w5) = requests (log w) @ [?req]"
    using client_responses_create_log[OF c] r4 by (simp add: requests_append)
  obtain w6 r where t: "masking_try ev w base_image mask_image prompt qual fname = (w6, [base_path, mask_path], r)"
    "requests (log w6) = requests (log w5)"
  proof (cases r5)
    case (Inl e)
    with c have "masking_try ev w base_image mask_image prompt qual fname = (w5, [base_path, mask_path], Some e)"
      by (simp add: masking_try_after_registration[OF s1 s2 c1 c2])
    then show ?thesis using that by blast
  next
    case (Inr resp)
    obtain w6 r6 where g: "masking_results ev w5 resp fname = (w6, r6)"
      by (cases "masking_results ev w5 resp fname")
    from masking_results_log[OF g] have "requests (log w6) = requests (log w5)"
      by (auto simp: quiet_def requests_append)
    moreover from c Inr g
    have "masking_try ev w base_image mask_image prompt qual fname = (w6, [base_path, mask_path], r6)"
      by (simp add: masking_try_after_registration[OF s1 s2 c1 c2])
    ultimately show ?thesis using that by blast
  qed
  from assms(1) t(1)
  have "fst (masking_clicked ev w (Some base_image) (Some mask_image) prompt qual fname)
        = fst (except_Exception (cleanup ev w6 [base_path, mask_path]) r)"
    by (simp add: masking_clicked_def del: cleanup.simps)
  then have "requests (log (fst (masking_clicked ev w (Some base_image) (Some mask_image) prompt qual fname)))
             = requests (log w6)"
    by (simp only: finally_except_requests)
  with t(2) l5 show ?thesis by simp
qed

lemma no_tag_image_data:
  assumes "\<forall>out \<in> set (output resp). otype out \<noteq> ''image_generation_call''"
  shows "generator_image_data resp = []" and "masking_image_data resp = []"
    and "spec_extract (output resp) = []"
proof -
  from assms have "filter (\<lambda>out. otype out = ''image_generation_call'') (output resp) = []"
    by (simp add: filter_empty_conv)
  then show g: "generator_image_data resp = []" by (simp add: generator_image_data_def)
  then show "masking_image_data resp = []" by (simp add: masking_image_data_eq)
  from g generator_image_data_spec[of resp] show "spec_extract (output resp) = []" by simp
qed

lemma no_tag_results:
  assumes "\<forall>out \<in> set (output resp). otype out \<noteq> ''image_generation_call''"
  shows "generator_results w resp = (st w (st_error (cross_mark @ '' No images were generated'')), None)"
    and "masking_results ev w resp fname = (st w (st_error (cross_mark @ '' No image was generated'')), None)"
  using no_tag_image_data[OF assms]
  by (simp_all add: generator_results_def masking_results_def)

lemma client_responses_create_Inr:
  "responses_create ev (api_calls w) req = Inr resp \<Longrightarrow>
     \<exists>w2. client_responses_create ev w req = (w2, Inr resp) \<and> st_calls (log w2) = st_calls (log w)"
  by (simp add: client_responses_create_def log_emit st_calls_append)

lemma generator_clicked_no_image:
  assumes nt: "\<forall>out \<in> set (output resp). otype out \<noteq> ''image_generation_call''"
    and "valid_files \<noteq> []" "prompt \<noteq> []"
    and p: "process_files ev valid_files (w, [], [], []) = ((w1, tf, bs, ids), None)"
    and r: "responses_create ev (api_calls w1) (generator_request (compose_content prompt bs ids)) = Inr resp"
  shows "snd (generator_clicked ev w valid_files prompt) = None
    \<and> st_calls (log (fst (generator_clicked ev w valid_files prompt)))
       = st_calls (log w) @ [st_error (cross_mark @ '' No images were generated'')]"
proof -
  from process_files_log[OF p] have s1: "st_calls (log w1) = st_calls (log w)"
    by (auto simp: st_calls_append)
  from client_responses_create_Inr[OF r] obtain w2 where
    c: "client_responses_create ev w1 (generator_request (compose_content prompt bs ids)) = (w2, Inr resp)"
    and s2: "st_calls (log w2) = st_calls (log w1)" by blast
  let ?w3 = "st w2 (st_error (cross_mark @ '' No images were generated''))"
  have t: "generator_try ev w valid_files prompt = (?w3, tf, None)"
    using p c no_tag_results(1)[OF nt] by (simp add: generator_try_def)
  have "generator_clicked ev w valid_files prompt = except_Exception (cleanup ev ?w3 tf) None"
    using assms(2,3) t by (simp add: generator_clicked_def)
  with finally_no_exception[of ev ?w3 tf] s1 s2 show ?thesis
    by (simp add: log_st st_calls_append)
qed

lemma masking_clicked_no_image:
  assumes nt: "\<forall>out \<in> set (output resp). otype out \<noteq> ''image_generation_call''"
    and "prompt \<noteq> []"
    and s1: "save_uploaded_file ev w base_image = (w1, Inr base_path)"
    and s2: "save_uploaded_file ev (emit w1 (TempFilesAppend base_path)) mask_image = (w2, Inr mask_path)"
    and c1: "create_file ev (emit w2 (TempFilesAppend mask_path)) base_path = (w3, Inr base_file_id)"
    and c2: "create_file ev w3 mask_path = (w4, Inr mask_file_id)"
    and r: "responses_create ev (api_calls w4) (masking_request prompt base_file_id qual mask_file_id) = Inr resp"
  shows "snd (masking_clicked ev w (Some base_image) (Some mask_image) prompt qual fname) = None
    \<and> st_calls (log (fst (masking_clicked ev w (Some base_image) (Some mask_image) prompt qual fname)))
       = st_calls (log w) @ [st_error (cross_mark @ '' No image was generated'')]"
proof -
  note s4 = masking_saved_and_registered(5)[OF s1 s2 c1 c2]
  from client_responses_create_Inr[OF r] obtain w5 where
    c: "client_responses_create ev w4 (masking_request prompt base_file_id qual mask_file_id) = (w5, Inr resp)"
    and s5: "st_calls (log w5) = st_calls (log w4)" by blast
  let ?w6 = "st w5 (st_error (cross_mark @ '' No image was generated''))"
  have t: "masking_try ev w base_image mask_image prompt qual fname = (?w6, [base_path, mask_path], None)"
    using c no_tag_results(2)[OF nt]
    by (simp add: masking_try_after_registration[OF s1 s2 c1 c2])
  have "masking_clicked ev w (Some base_image) (Some mask_image) prompt qual fname
        = except_Exception (cleanup ev ?w6 [base_path, mask_path]) None"
    using assms(2) t by (simp add: masking_clicked_def del: cleanup.simps)
  with finally_no_exception[of ev ?w6 "[base_path, mask_path]"] s4 s5 show ?thesis
    by (simp add: log_st st_calls_append del: cleanup.simps)
qed

section \<open>Theorems\<close>

text \<open>
  C2. \<open>validate_image_file\<close> answers ok exactly when the file is present, its declared
  size is at most 20 MiB = 20971520 bytes and its declared MIME type is one of
  image/jpeg, image/jpg, image/png, image/gif, image/webp; an upload whose size is
  strictly above 20 MiB is refused whatever its declared type.
\<close>

theorem validate_image_file_ok_iff:
  "(fst (validate_image_file uploaded) \<longleftrightarrow>
      (\<exists>f. uploaded = Some f \<and> fsize f \<le> 20971520 \<and>
           ftype f \<in> {''image/jpeg'', ''image/jpg'', ''image/png'', ''image/gif'', ''image/webp''}))
   \<and> (\<forall>f. fsize f > 20971520 \<longrightarrow> \<not> fst (validate_image_file (Some f)))"
  by (cases uploaded) (auto simp: validate_image_file_def allowed_types_def)

theorem validate_image_file_ok_iff_witness:
  "fst (validate_image_file (Some \<lparr>name = ''a.png'', ftype = ''image/png'', fsize = 20971520, getvalue = []\<rparr>))
   \<and> (20971521::int) > 20971520
   \<and> \<not> fst (validate_image_file (Some \<lparr>name = ''a.png'', ftype = ''image/png'', fsize = 20971521, getvalue = []\<rparr>))"
  using validate_image_file_ok_iff
    [of "Some \<lparr>name = ''a.png'', ftype = ''image/png'', fsize = 20971520, getvalue = []\<rparr>"]
  by simp

text \<open>
  C7. For every byte string \<open>bs\<close> held by a file, \<open>encode_image\<close> (base64 encoding
  followed by the UTF-8 decode to a \<open>str\<close>) returns a string, and \<open>base64.b64decode\<close>
  of that string gives back exactly \<open>bs\<close>.
\<close>

theorem encode_image_b64decode_roundtrip:
  "fs w file_path = Some bs \<Longrightarrow>
     \<exists>s. encode_image w file_path = Inr s \<and> b64decode (Some s) = Inr bs"
  using b64_roundtrip[of bs] by (simp add: encode_image_def open_rb_def)

theorem encode_image_b64decode_roundtrip_witness:
  "fs \<lparr>fs = [''/tmp/tmpa.png'' \<mapsto> [72, 105, 33, 0, 255]], names_drawn = 0, api_calls = 0, log = []\<rparr>
      ''/tmp/tmpa.png'' = Some [72, 105, 33, 0, 255]
   \<and> (\<exists>s. encode_image
             \<lparr>fs = [''/tmp/tmpa.png'' \<mapsto> [72, 105, 33, 0, 255]], names_drawn = 0, api_calls = 0, log = []\<rparr>
             ''/tmp/tmpa.png'' = Inr s
          \<and> b64decode (Some s) = Inr [72, 105, 33, 0, 255])"
  using encode_image_b64decode_roundtrip
    [of "\<lparr>fs = [''/tmp/tmpa.png'' \<mapsto> [72, 105, 33, 0, 255]], names_drawn = 0, api_calls = 0, log = []\<rparr>"
        "''/tmp/tmpa.png''" "[72, 105, 33, 0, 255]"]
  by simp

text \<open>
  C1. In a run of either page's generate action, from any world and in any
  environment, the trace of the handler is: events that unlink nothing, among them the
  appends of the paths \<open>ps\<close>; then one \<open>os.unlink\<close> for each path of \<open>ps\<close>, in order;
  then only calls into Streamlit (the error report, if any). So every appended path
  gets its delete attempt before the handler returns, whether the run succeeds, a
  registration fails or the generation fails. Which deletions the system refuses
  changes neither the trace nor the exception that leaves the handler: a failed
  delete is swallowed.
\<close>

theorem temp_files_unlinked_on_every_exit:
  "(\<exists>evs ps ui.
      log (fst (generator_clicked ev w valid_files prompt)) = log w @ evs @ map Unlink ps @ map St ui
      \<and> appended evs = ps \<and> unlinked evs = [])
   \<and> (\<exists>evs ps ui.
      log (fst (masking_clicked ev w base_image mask_image prompt qual output_filename))
        = log w @ evs @ map Unlink ps @ map St ui
      \<and> appended evs = ps \<and> unlinked evs = [])
   \<and> log (fst (generator_clicked (ev\<lparr>unlink_denied := d\<rparr>) w valid_files prompt))
       = log (fst (generator_clicked ev w valid_files prompt))
   \<and> snd (generator_clicked (ev\<lparr>unlink_denied := d\<rparr>) w valid_files prompt)
       = snd (generator_clicked ev w valid_files prompt)
   \<and> log (fst (masking_clicked (ev\<lparr>unlink_denied := d\<rparr>) w base_image mask_image prompt qual output_filename))
       = log (fst (masking_clicked ev w base_image mask_image prompt qual output_filename))
   \<and> snd (masking_clicked (ev\<lparr>unlink_denied := d\<rparr>) w base_image mask_image prompt qual output_filename)
       = snd (masking_clicked ev w base_image mask_image prompt qual output_filename)"
  by (intro conjI generator_clicked_cleanup masking_clicked_cleanup
        conjunct1[OF generator_clicked_unlink_denied] conjunct2[OF generator_clicked_unlink_denied]
        conjunct1[OF masking_clicked_unlink_denied] conjunct2[OF masking_clicked_unlink_denied])

theorem temp_files_unlinked_on_every_exit_witness:
  "\<exists>evs ui.
      log (fst (generator_clicked
                  (example_env\<lparr>files_create := (\<lambda>n data purpose.
                                   if n = 1 then Inl (APIError ''401'') else Inr ''file-0''),
                               unlink_denied := (\<lambda>p. True)\<rparr>)
                  empty_world [example_base, example_mask] ''a prompt''))
        = evs @ map Unlink [''/tmp/tmpf0.jpg'', ''/tmp/tmpf1.png''] @ map St ui
      \<and> appended evs = [''/tmp/tmpf0.jpg'', ''/tmp/tmpf1.png''] \<and> unlinked evs = []"
proof -
  let ?ev = "example_env\<lparr>files_create := (\<lambda>n data purpose.
                                   if n = 1 then Inl (APIError ''401'') else Inr ''file-0''),
                               unlink_denied := (\<lambda>p. True)\<rparr>"
  let ?log = "log (fst (generator_clicked ?ev empty_world [example_base, example_mask] ''a prompt''))"
  have u: "unlinked ?log = [''/tmp/tmpf0.jpg'', ''/tmp/tmpf1.png'']"
    by code_simp
  have l0: "log empty_world = []" by (simp add: empty_world_def)
  from temp_files_unlinked_on_every_exit[where ev = "?ev" and w = empty_world
         and valid_files = "[example_base, example_mask]" and prompt = "''a prompt''"]
  obtain evs ps ui where e: "?log = log empty_world @ evs @ map Unlink ps @ map St ui"
    "appended evs = ps" "unlinked evs = []" by blast
  from e(1) have "unlinked ?log = unlinked (evs @ map Unlink ps @ map St ui)" by (simp only: l0 append_Nil)
  with e(3) have "unlinked ?log = ps" by (simp add: unlinked_append unlinked_map_Unlink unlinked_map_St)
  with u have "ps = [''/tmp/tmpf0.jpg'', ''/tmp/tmpf1.png'']" by simp
  with e l0 show ?thesis by (metis append_Nil)
qed








text \<open>
  C9. When one of streamlit, openai, requests, PIL cannot be imported, each launcher
  ends with exit code 1 and starts nothing. When all four can be imported, each
  launcher starts exactly one command, \<open>python -m streamlit run <app>\<close> with
  \<open>--server.port 8501\<close> (the generator) or \<open>8502\<close> (the masking page) and
  \<open>--server.address localhost\<close>; it ends with exit code 1 when starting raises an
  \<open>Exception\<close>, and with exit code 0 when the server process returns.
\<close>

theorem launchers_exit_codes:
  "((\<exists>package \<in> {''streamlit'', ''openai'', ''requests'', ''PIL''}. \<not> importable lenv package) \<longrightarrow>
       snd (run_image_generator_main lenv) = 1 \<and> snd (mask_runner_main lenv) = 1
       \<and> (\<forall>argv. SubprocessRun argv \<notin> set (fst (run_image_generator_main lenv))
                 \<and> SubprocessRun argv \<notin> set (fst (mask_runner_main lenv))))
   \<and> ((\<forall>package \<in> {''streamlit'', ''openai'', ''requests'', ''PIL''}. importable lenv package) \<longrightarrow>
       (\<forall>argv. SubprocessRun argv \<in> set (fst (run_image_generator_main lenv)) \<longleftrightarrow>
          argv = [sys_executable lenv, ''-m'', ''streamlit'', ''run'', ''streamlit_app.py'',
                  ''--server.port'', ''8501'', ''--server.address'', ''localhost''])
       \<and> (\<forall>argv. SubprocessRun argv \<in> set (fst (mask_runner_main lenv)) \<longleftrightarrow>
          argv = [sys_executable lenv, ''-m'', ''streamlit'', ''run'', ''image_masking_streamlit.py'',
                  ''--server.port'', ''8502'', ''--server.address'', ''localhost''])
       \<and> (\<forall>e. subprocess_run lenv [sys_executable lenv, ''-m'', ''streamlit'', ''run'', ''streamlit_app.py'',
                  ''--server.port'', ''8501'', ''--server.address'', ''localhost''] = RaisedException e
              \<longrightarrow> snd (run_image_generator_main lenv) = 1)
       \<and> (\<forall>e. subprocess_run lenv [sys_executable lenv, ''-m'', ''streamlit'', ''run'',
                  ''image_masking_streamlit.py'',
                  ''--server.port'', ''8502'', ''--server.address'', ''localhost''] = RaisedException e
              \<longrightarrow> snd (mask_runner_main lenv) = 1)
       \<and> (\<forall>rc. subprocess_run lenv [sys_executable lenv, ''-m'', ''streamlit'', ''run'', ''streamlit_app.py'',
                  ''--server.port'', ''8501'', ''--server.address'', ''localhost''] = Completed rc
              \<longrightarrow> snd (run_image_generator_main lenv) = 0)
       \<and> (\<forall>rc. subprocess_run lenv [sys_executable lenv, ''-m'', ''streamlit'', ''run'',
                  ''image_masking_streamlit.py'',
                  ''--server.port'', ''8502'', ''--server.address'', ''localhost''] = Completed rc
              \<longrightarrow> snd (mask_runner_main lenv) = 0))"
proof (intro conjI impI)
  assume m: "\<exists>package \<in> {''streamlit'', ''openai'', ''requests'', ''PIL''}. \<not> importable lenv package"
  show "snd (run_image_generator_main lenv) = 1"
    using check_and_run_missing[OF m] by (simp only: run_image_generator_main_eq)
  show "snd (mask_runner_main lenv) = 1"
    using check_and_run_missing[OF m] by (simp only: mask_runner_main_eq)
  show "\<forall>argv. SubprocessRun argv \<notin> set (fst (run_image_generator_main lenv))
               \<and> SubprocessRun argv \<notin> set (fst (mask_runner_main lenv))"
    using check_and_run_missing[OF m]
    by (simp only: run_image_generator_main_eq mask_runner_main_eq) blast
next
  assume p: "\<forall>package \<in> {''streamlit'', ''openai'', ''requests'', ''PIL''}. importable lenv package"
  note g = check_and_run_present[OF p, of "[sys_executable lenv, ''-m'', ''streamlit'', ''run'',
              ''streamlit_app.py'', ''--server.port'', ''8501'', ''--server.address'', ''localhost'']"]
  note k = check_and_run_present[OF p, of "[sys_executable lenv, ''-m'', ''streamlit'', ''run'',
              ''image_masking_streamlit.py'', ''--server.port'', ''8502'', ''--server.address'', ''localhost'']"]
  show "\<forall>argv. SubprocessRun argv \<in> set (fst (run_image_generator_main lenv)) \<longleftrightarrow>
          argv = [sys_executable lenv, ''-m'', ''streamlit'', ''run'', ''streamlit_app.py'',
                  ''--server.port'', ''8501'', ''--server.address'', ''localhost'']"
    using g by (simp only: run_image_generator_main_eq) blast
  show "\<forall>argv. SubprocessRun argv \<in> set (fst (mask_runner_main lenv)) \<longleftrightarrow>
          argv = [sys_executable lenv, ''-m'', ''streamlit'', ''run'', ''image_masking_streamlit.py'',
                  ''--server.port'', ''8502'', ''--server.address'', ''localhost'']"
    using k by (simp only: mask_runner_main_eq) blast
  show "\<forall>e. subprocess_run lenv [sys_executable lenv, ''-m'', ''streamlit'', ''run'', ''streamlit_app.py'',
                  ''--server.port'', ''8501'', ''--server.address'', ''localhost''] = RaisedException e
              \<longrightarrow> snd (run_image_generator_main lenv) = 1"
    using g by (simp only: run_image_generator_main_eq) blast
  show "\<forall>e. subprocess_run lenv [sys_executable lenv, ''-m'', ''streamlit'', ''run'',
                  ''image_masking_streamlit.py'',
                  ''--server.port'', ''8502'', ''--server.address'', ''localhost''] = RaisedException e
              \<longrightarrow> snd (mask_runner_main lenv) = 1"
    using k by (simp only: mask_runner_main_eq) blast
  show "\<forall>rc. subprocess_run lenv [sys_executable lenv, ''-m'', ''streamlit'', ''run'', ''streamlit_app.py'',
                  ''--server.port'', ''8501'', ''--server.address'', ''localhost''] = Completed rc
              \<longrightarrow> snd (run_image_generator_main lenv) = 0"
    using g by (simp only: run_image_generator_main_eq) blast
  show "\<forall>rc. subprocess_run lenv [sys_executable lenv, ''-m'', ''streamlit'', ''run'',
                  ''image_masking_streamlit.py'',
                  ''--server.port'', ''8502'', ''--server.address'', ''localhost''] = Completed rc
              \<longrightarrow> snd (mask_runner_main lenv) = 0"
    using k by (simp only: mask_runner_main_eq) blast
qed

theorem launchers_exit_codes_witness:
  "\<not> importable (example_launcher_env\<lparr>importable := (\<lambda>package. package \<noteq> ''openai'')\<rparr>) ''openai''
   \<and> snd (run_image_generator_main (example_launcher_env\<lparr>importable := (\<lambda>package. package \<noteq> ''openai'')\<rparr>)) = 1
   \<and> snd (mask_runner_main (example_launcher_env\<lparr>importable := (\<lambda>package. package \<noteq> ''openai'')\<rparr>)) = 1
   \<and> map (importable example_launcher_env) [''streamlit'', ''openai'', ''requests'', ''PIL'']
       = [True, True, True, True]
   \<and> SubprocessRun [''/usr/bin/python3'', ''-m'', ''streamlit'', ''run'', ''streamlit_app.py'',
                     ''--server.port'', ''8501'', ''--server.address'', ''localhost'']
        \<in> set (fst (run_image_generator_main example_launcher_env))
   \<and> SubprocessRun [''/usr/bin/python3'', ''-m'', ''streamlit'', ''run'', ''image_masking_streamlit.py'',
                     ''--server.port'', ''8502'', ''--server.address'', ''localhost'']
        \<in> set (fst (mask_runner_main example_launcher_env))
   \<and> snd (run_image_generator_main example_launcher_env) = 0
   \<and> snd (mask_runner_main example_launcher_env) = 0
   \<and> snd (run_image_generator_main
             (example_launcher_env\<lparr>subprocess_run := (\<lambda>argv. RaisedException ''No such file'')\<rparr>)) = 1
   \<and> snd (mask_runner_main
             (example_launcher_env\<lparr>subprocess_run := (\<lambda>argv. RaisedException ''No such file'')\<rparr>)) = 1"
proof -
  have m: "\<exists>package \<in> {''streamlit'', ''openai'', ''requests'', ''PIL''}.
       \<not> importable (example_launcher_env\<lparr>importable := (\<lambda>package. package \<noteq> ''openai'')\<rparr>) package"
    by simp
  have p: "\<forall>package \<in> {''streamlit'', ''openai'', ''requests'', ''PIL''}. importable example_launcher_env package"
    by (simp add: example_launcher_env_def)
  have p': "\<forall>package \<in> {''streamlit'', ''openai'', ''requests'', ''PIL''}.
     importable (example_launcher_env\<lparr>subprocess_run := (\<lambda>argv. RaisedException ''No such file'')\<rparr>) package"
    by (simp add: example_launcher_env_def)
  have x: "sys_executable example_launcher_env = ''/usr/bin/python3''"
    "\<And>argv. subprocess_run example_launcher_env argv = Completed 0"
    by (simp_all add: example_launcher_env_def)
  from launchers_exit_codes[of "example_launcher_env\<lparr>importable := (\<lambda>package. package \<noteq> ''openai'')\<rparr>"] m
  have a: "snd (run_image_generator_main (example_launcher_env\<lparr>importable := (\<lambda>package. package \<noteq> ''openai'')\<rparr>)) = 1
   \<and> snd (mask_runner_main (example_launcher_env\<lparr>importable := (\<lambda>package. package \<noteq> ''openai'')\<rparr>)) = 1"
    by blast
  from launchers_exit_codes[of example_launcher_env] p x
  have b: "SubprocessRun [''/usr/bin/python3'', ''-m'', ''streamlit'', ''run'', ''streamlit_app.py'',
                     ''--server.port'', ''8501'', ''--server.address'', ''localhost'']
        \<in> set (fst (run_image_generator_main example_launcher_env))
   \<and> SubprocessRun [''/usr/bin/python3'', ''-m'', ''streamlit'', ''run'', ''image_masking_streamlit.py'',
                     ''--server.port'', ''8502'', ''--server.address'', ''localhost'']
        \<in> set (fst (mask_runner_main example_launcher_env))
   \<and> snd (run_image_generator_main example_launcher_env) = 0
   \<and> snd (mask_runner_main example_launcher_env) = 0"
    by simp
  from launchers_exit_codes[of "example_launcher_env\<lparr>subprocess_run := (\<lambda>argv. RaisedException ''No such file'')\<rparr>"] p'
  have c: "snd (run_image_generator_main
             (example_launcher_env\<lparr>subprocess_run := (\<lambda>argv. RaisedException ''No such file'')\<rparr>)) = 1
   \<and> snd (mask_runner_main
             (example_launcher_env\<lparr>subprocess_run := (\<lambda>argv. RaisedException ''No such file'')\<rparr>)) = 1"
    by simp
  have m': "\<not> importable (example_launcher_env\<lparr>importable := (\<lambda>package. package \<noteq> ''openai'')\<rparr>) ''openai''"
    by simp
  have p'': "map (importable example_launcher_env) [''streamlit'', ''openai'', ''requests'', ''PIL'']
       = [True, True, True, True]"
    by (simp add: example_launcher_env_def)
  from m' p'' a b c show ?thesis by blast
qed

text \<open>
  C5. In a multi-reference generation in which all \<open>N\<close> images were saved and
  registered, the handler sends exactly one request. Its content list is the prompt
  as one text entry, then the \<open>N\<close> images inline as base64 data URLs in upload order,
  then the \<open>N\<close> file ids in the same order, the \<open>i\<close>-th id being the one the
  registration of the \<open>i\<close>-th image returned: every image goes out in both forms.
\<close>

theorem multi_reference_request:
  assumes "valid_files \<noteq> []" and "prompt \<noteq> []"
    and "process_files ev valid_files (w, [], [], []) = ((w1, temp_files, base64_images, file_ids), None)"
  shows "requests (log (fst (generator_clicked ev w valid_files prompt)))
         = requests (log w) @
           [\<lparr>model = ''gpt-4o'',
             input = [\<lparr>role = ''user'',
                       content =
                         input_text prompt
                         # map (\<lambda>f. input_image_url
                                       (''data:image/jpeg;base64,''
                                          @ map char_of_byte (b64encode (getvalue f)))) valid_files
                         @ map input_image_file_id file_ids\<rparr>],
             tools = [\<lparr>tool_type = ''image_generation'', quality = None, input_image_mask = None\<rparr>]\<rparr>]
       \<and> length file_ids = length valid_files
       \<and> (\<forall>i<length valid_files.
             files_create ev (api_calls w + i) (getvalue (valid_files ! i)) ''vision'' = Inr (file_ids ! i))"
proof -
  from process_files_ok[OF assms(3)] have
    b: "base64_images = map (\<lambda>f. map char_of_byte (b64encode (getvalue f))) valid_files"
    and i: "length file_ids = length valid_files"
      "\<forall>i<length valid_files.
         files_create ev (api_calls w + i) (getvalue (valid_files ! i)) ''vision'' = Inr (file_ids ! i)"
    by auto
  from generator_clicked_after_process[OF assms] b i show ?thesis
    by (simp add: generator_request_def compose_content_eq comp_def)
qed

theorem multi_reference_request_witness:
  "requests (log (fst (generator_clicked example_env empty_world [example_base, example_mask]
                         ''a castle at dusk'')))
   = [\<lparr>model = ''gpt-4o'',
       input = [\<lparr>role = ''user'',
                 content = [input_text ''a castle at dusk'',
                            input_image_url ''data:image/jpeg;base64,AQID'',
                            input_image_url ''data:image/jpeg;base64,BAU='',
                            input_image_file_id ''file-0'',
                            input_image_file_id ''file-1'']\<rparr>],
       tools = [\<lparr>tool_type = ''image_generation'', quality = None, input_image_mask = None\<rparr>]\<rparr>]"
proof -
  have ok: "snd (process_files example_env [example_base, example_mask] (empty_world, [], [], [])) = None"
    by code_simp
  have ids: "snd (snd (snd (fst (process_files example_env [example_base, example_mask]
                                    (empty_world, [], [], []))))) = [''file-0'', ''file-1'']"
    by code_simp
  obtain w1 tf bs where p: "process_files example_env [example_base, example_mask] (empty_world, [], [], [])
      = ((w1, tf, bs, [''file-0'', ''file-1'']), None)"
    using ok ids by (metis prod.collapse)
  have e: "map (\<lambda>f. input_image_url (''data:image/jpeg;base64,'' @ map char_of_byte (b64encode (getvalue f))))
             [example_base, example_mask]
           = [input_image_url ''data:image/jpeg;base64,AQID'', input_image_url ''data:image/jpeg;base64,BAU='']"
    by code_simp
  have l: "log empty_world = []" by (simp add: empty_world_def)
  from multi_reference_request[OF _ _ p, of "''a castle at dusk''"] e l
  show ?thesis by simp
qed

text \<open>
  C6. In a masked edit in which the base image and the mask were saved
  and registered, with a prompt and a quality taken from the selectbox, the handler
  sends exactly one request. Its content list holds one text entry, the prompt, and
  one image reference, the file id of the base image; the file id of the mask is not
  in the content list but in the \<open>input_image_mask\<close> of the one \<open>image_generation\<close>
  tool, next to the quality, which is \<open>standard\<close> or \<open>high\<close>. Both images go out
  as remote file ids only.
\<close>

theorem masked_edit_request:
  assumes "prompt \<noteq> []" and "qual \<in> set quality_options"
    and "save_uploaded_file ev w base_image = (w1, Inr base_path)"
    and "save_uploaded_file ev (emit w1 (TempFilesAppend base_path)) mask_image = (w2, Inr mask_path)"
    and "create_file ev (emit w2 (TempFilesAppend mask_path)) base_path = (w3, Inr base_file_id)"
    and "create_file ev w3 mask_path = (w4, Inr mask_file_id)"
  shows "requests (log (fst (masking_clicked ev w (Some base_image) (Some mask_image)
                               prompt qual output_filename)))
         = requests (log w) @
           [\<lparr>model = ''gpt-4o'',
             input = [\<lparr>role = ''user'',
                       content = [input_text prompt, input_image_file_id base_file_id]\<rparr>],
             tools = [\<lparr>tool_type = ''image_generation'', quality = Some qual,
                       input_image_mask = Some mask_file_id\<rparr>]\<rparr>]
       \<and> files_create ev (api_calls w) (getvalue base_image) ''vision'' = Inr base_file_id
       \<and> files_create ev (api_calls w + 1) (getvalue mask_image) ''vision'' = Inr mask_file_id
       \<and> (qual = ''standard'' \<or> qual = ''high'')"
  using masking_clicked_after_registration[OF assms(1) assms(3-6)]
    masking_saved_and_registered(1,2)[OF assms(3-6)] assms(2)
  by (simp add: masking_request_def quality_options_def)

theorem masked_edit_request_witness:
  "requests (log (fst (masking_clicked example_env empty_world (Some example_base) (Some example_mask)
                         ''add a red balloon'' ''high'' ''masked_image.png'')))
   = [\<lparr>model = ''gpt-4o'',
       input = [\<lparr>role = ''user'',
                 content = [input_text ''add a red balloon'', input_image_file_id ''file-0'']\<rparr>],
       tools = [\<lparr>tool_type = ''image_generation'', quality = Some ''high'',
                 input_image_mask = Some ''file-1''\<rparr>]\<rparr>]"
proof -
  have q: "''high'' \<in> set quality_options" by (simp add: quality_options_def)
  have s1: "snd (save_uploaded_file example_env empty_world example_base) = Inr ''/tmp/tmpf0.jpg''"
    by code_simp
  then obtain w1 where w1: "save_uploaded_file example_env empty_world example_base = (w1, Inr ''/tmp/tmpf0.jpg'')"
    "w1 = fst (save_uploaded_file example_env empty_world example_base)"
    by (metis prod.collapse)
  have "snd (save_uploaded_file example_env
               (emit (fst (save_uploaded_file example_env empty_world example_base))
                  (TempFilesAppend ''/tmp/tmpf0.jpg'')) example_mask) = Inr ''/tmp/tmpf1.png''"
    by code_simp
  then obtain w2 where w2: "save_uploaded_file example_env (emit w1 (TempFilesAppend ''/tmp/tmpf0.jpg'')) example_mask
      = (w2, Inr ''/tmp/tmpf1.png'')"
    "w2 = fst (save_uploaded_file example_env
               (emit (fst (save_uploaded_file example_env empty_world example_base))
                  (TempFilesAppend ''/tmp/tmpf0.jpg'')) example_mask)"
    unfolding w1(2) by (metis prod.collapse)
  have "snd (create_file example_env
               (emit (fst (save_uploaded_file example_env
                       (emit (fst (save_uploaded_file example_env empty_world example_base))
                          (TempFilesAppend ''/tmp/tmpf0.jpg'')) example_mask))
                  (TempFilesAppend ''/tmp/tmpf1.png'')) ''/tmp/tmpf0.jpg'') = Inr ''file-0''"
    by code_simp
  then obtain w3 where w3: "create_file example_env (emit w2 (TempFilesAppend ''/tmp/tmpf1.png'')) ''/tmp/tmpf0.jpg''
      = (w3, Inr ''file-0'')"
    "w3 = fst (create_file example_env
               (emit (fst (save_uploaded_file example_env
                       (emit (fst (save_uploaded_file example_env empty_world example_base))
                          (TempFilesAppend ''/tmp/tmpf0.jpg'')) example_mask))
                  (TempFilesAppend ''/tmp/tmpf1.png'')) ''/tmp/tmpf0.jpg'')"
    unfolding w2(2) by (metis prod.collapse)
  have "snd (create_file example_env
               (fst (create_file example_env
                 (emit (fst (save_uploaded_file example_env
                       (emit (fst (save_uploaded_file example_env empty_world example_base))
                          (TempFilesAppend ''/tmp/tmpf0.jpg'')) example_mask))
                  (TempFilesAppend ''/tmp/tmpf1.png'')) ''/tmp/tmpf0.jpg''))
               ''/tmp/tmpf1.png'') = Inr ''file-1''"
    by code_simp
  then obtain w4 where w4: "create_file example_env w3 ''/tmp/tmpf1.png'' = (w4, Inr ''file-1'')"
    unfolding w3(2) by (metis prod.collapse)
  have l: "log empty_world = []" by (simp add: empty_world_def)
  from masked_edit_request[OF _ q w1(1) w2(1) w3(1) w4, of "''add a red balloon''" "''masked_image.png''"] l
  show ?thesis by simp
qed

text \<open>
  The content list does not hold two image references: in the scenario of the
  specification the one request has one message, whose content list holds one image
  reference, that of the base image.
\<close>

theorem masked_edit_content_counterexample:
  "map (\<lambda>r. map (\<lambda>m. length (filter is_image_ref (content m))) (input r))
     (requests (log (fst (masking_clicked example_env empty_world (Some example_base) (Some example_mask)
                            ''add a red balloon'' ''high'' ''masked_image.png''))))
   = [[1]]"
  by code_simp

text \<open>
  C4. For a response without any entry tagged \<open>"image_generation_call"\<close> the
  extraction is empty on both pages, and the code that handles the response takes the
  branch without images: one \<open>st.error\<close> with the no-image message, and no exception.
  In a run that reached the response, the handler as a whole then returns normally,
  its only call into Streamlit being that message: nothing is reported through
  \<open>st.exception\<close> and nothing leaves the handler.
\<close>

theorem no_image_is_reported_not_raised:
  assumes "\<forall>out \<in> set (output resp). otype out \<noteq> ''image_generation_call''"
  shows "spec_extract (output resp) = []
    \<and> generator_image_data resp = [] \<and> masking_image_data resp = []
    \<and> generator_results w' resp = (st w' (st_error (cross_mark @ '' No images were generated'')), None)
    \<and> masking_results ev w' resp output_filename
        = (st w' (st_error (cross_mark @ '' No image was generated'')), None)
    \<and> (valid_files \<noteq> [] \<and> prompt \<noteq> []
         \<and> process_files ev valid_files (w, [], [], []) = ((w1, temp_files, base64_images, file_ids), None)
         \<and> responses_create ev (api_calls w1)
              (generator_request (compose_content prompt base64_images file_ids)) = Inr resp
        \<longrightarrow> snd (generator_clicked ev w valid_files prompt) = None
            \<and> st_calls (log (fst (generator_clicked ev w valid_files prompt)))
               = st_calls (log w) @ [st_error (cross_mark @ '' No images were generated'')])
    \<and> (prompt \<noteq> []
         \<and> save_uploaded_file ev w base_image = (v1, Inr base_path)
         \<and> save_uploaded_file ev (emit v1 (TempFilesAppend base_path)) mask_image = (v2, Inr mask_path)
         \<and> create_file ev (emit v2 (TempFilesAppend mask_path)) base_path = (v3, Inr base_file_id)
         \<and> create_file ev v3 mask_path = (v4, Inr mask_file_id)
         \<and> responses_create ev (api_calls v4)
              (masking_request prompt base_file_id qual mask_file_id) = Inr resp
        \<longrightarrow> snd (masking_clicked ev w (Some base_image) (Some mask_image) prompt qual output_filename) = None
            \<and> st_calls (log (fst (masking_clicked ev w (Some base_image) (Some mask_image)
                                     prompt qual output_filename)))
               = st_calls (log w) @ [st_error (cross_mark @ '' No image was generated'')])"
    (is "?A \<and> ?B \<and> ?C \<and> ?D \<and> ?E \<and> (?G1 \<longrightarrow> ?G2) \<and> (?M1 \<longrightarrow> ?M2)")
proof -
  note d = no_tag_image_data[OF assms]
  have g: "?G1 \<longrightarrow> ?G2"
  proof
    assume a: ?G1
    show ?G2
      by (rule generator_clicked_no_image
            [OF assms a[THEN conjunct1] a[THEN conjunct2, THEN conjunct1]
                a[THEN conjunct2, THEN conjunct2, THEN conjunct1]
                a[THEN conjunct2, THEN conjunct2, THEN conjunct2]])
  qed
  have m: "?M1 \<longrightarrow> ?M2"
  proof
    assume a: ?M1
    show ?M2
      by (rule masking_clicked_no_image
            [OF assms a[THEN conjunct1] a[THEN conjunct2, THEN conjunct1]
                a[THEN conjunct2, THEN conjunct2, THEN conjunct1]
                a[THEN conjunct2, THEN conjunct2, THEN conjunct2, THEN conjunct1]
                a[THEN conjunct2, THEN conjunct2, THEN conjunct2, THEN conjunct2, THEN conjunct1]
                a[THEN conjunct2, THEN conjunct2, THEN conjunct2, THEN conjunct2, THEN conjunct2]])
  qed
  show ?thesis
  proof (intro conjI)
    show ?A by (rule d(3))
    show ?B by (rule d(1))
    show ?C by (rule d(2))
    show ?D by (rule no_tag_results(1)[OF assms])
    show ?E by (rule no_tag_results(2)[OF assms])
    show "?G1 \<longrightarrow> ?G2" by (rule g)
    show "?M1 \<longrightarrow> ?M2" by (rule m)
  qed
qed

theorem no_image_is_reported_not_raised_witness:
  "map otype (output text_only_response) = [''message'']
   \<and> snd (generator_clicked text_only_env empty_world [example_base] ''a castle at dusk'') = None
   \<and> st_calls (log (fst (generator_clicked text_only_env empty_world [example_base]
                             ''a castle at dusk'')))
      = [st_error (cross_mark @ '' No images were generated'')]
   \<and> snd (masking_clicked text_only_env empty_world (Some example_base) (Some example_mask)
            ''add a red balloon'' ''high'' ''masked_image.png'') = None
   \<and> st_calls (log (fst (masking_clicked text_only_env empty_world (Some example_base)
                             (Some example_mask) ''add a red balloon'' ''high'' ''masked_image.png'')))
      = [st_error (cross_mark @ '' No image was generated'')]"
proof -
  have nt: "\<forall>out \<in> set (output text_only_response). otype out \<noteq> ''image_generation_call''"
    by (simp add: text_only_response_def)
  have rc: "\<And>n req. responses_create text_only_env n req = Inr text_only_response"
    by (simp add: text_only_env_def)
  have l: "log empty_world = []" by (simp add: empty_world_def)
  have ok: "snd (process_files text_only_env [example_base] (empty_world, [], [], [])) = None"
    by code_simp
  obtain w1 tf bs ids where p: "process_files text_only_env [example_base] (empty_world, [], [], [])
      = ((w1, tf, bs, ids), None)"
    using ok by (metis prod.collapse)
  have h: "[example_base] \<noteq> [] \<and> ''a castle at dusk'' \<noteq> []
         \<and> process_files text_only_env [example_base] (empty_world, [], [], []) = ((w1, tf, bs, ids), None)
         \<and> responses_create text_only_env (api_calls w1)
              (generator_request (compose_content ''a castle at dusk'' bs ids)) = Inr text_only_response"
    using p rc by simp
  have s1: "snd (save_uploaded_file text_only_env empty_world example_base) = Inr ''/tmp/tmpf0.jpg''"
    by code_simp
  then obtain v1 where v1: "save_uploaded_file text_only_env empty_world example_base = (v1, Inr ''/tmp/tmpf0.jpg'')"
    "v1 = fst (save_uploaded_file text_only_env empty_world example_base)"
    by (metis prod.collapse)
  have "snd (save_uploaded_file text_only_env
               (emit (fst (save_uploaded_file text_only_env empty_world example_base))
                  (TempFilesAppend ''/tmp/tmpf0.jpg'')) example_mask) = Inr ''/tmp/tmpf1.png''"
    by code_simp
  then obtain v2 where v2: "save_uploaded_file text_only_env (emit v1 (TempFilesAppend ''/tmp/tmpf0.jpg'')) example_mask
      = (v2, Inr ''/tmp/tmpf1.png'')"
    "v2 = fst (save_uploaded_file text_only_env
               (emit (fst (save_uploaded_file text_only_env empty_world example_base))
                  (TempFilesAppend ''/tmp/tmpf0.jpg'')) example_mask)"
    unfolding v1(2) by (metis prod.collapse)
  have "snd (create_file text_only_env
               (emit (fst (save_uploaded_file text_only_env
                       (emit (fst (save_uploaded_file text_only_env empty_world example_base))
                          (TempFilesAppend ''/tmp/tmpf0.jpg'')) example_mask))
                  (TempFilesAppend ''/tmp/tmpf1.png'')) ''/tmp/tmpf0.jpg'') = Inr ''file-0''"
    by code_simp
  then obtain v3 where v3: "create_file text_only_env (emit v2 (TempFilesAppend ''/tmp/tmpf1.png'')) ''/tmp/tmpf0.jpg''
      = (v3, Inr ''file-0'')"
    "v3 = fst (create_file text_only_env
               (emit (fst (save_uploaded_file text_only_env
                       (emit (fst (save_uploaded_file text_only_env empty_world example_base))
                          (TempFilesAppend ''/tmp/tmpf0.jpg'')) example_mask))
                  (TempFilesAppend ''/tmp/tmpf1.png'')) ''/tmp/tmpf0.jpg'')"
    unfolding v2(2) by (metis prod.collapse)
  have "snd (create_file text_only_env
               (fst (create_file text_only_env
                 (emit (fst (save_uploaded_file text_only_env
                       (emit (fst (save_uploaded_file text_only_env empty_world example_base))
                          (TempFilesAppend ''/tmp/tmpf0.jpg'')) example_mask))
                  (TempFilesAppend ''/tmp/tmpf1.png'')) ''/tmp/tmpf0.jpg''))
               ''/tmp/tmpf1.png'') = Inr ''file-1''"
    by code_simp
  then obtain v4 where v4: "create_file text_only_env v3 ''/tmp/tmpf1.png'' = (v4, Inr ''file-1'')"
    unfolding v3(2) by (metis prod.collapse)
  have k: "''add a red balloon'' \<noteq> []
         \<and> save_uploaded_file text_only_env empty_world example_base = (v1, Inr ''/tmp/tmpf0.jpg'')
         \<and> save_uploaded_file text_only_env (emit v1 (TempFilesAppend ''/tmp/tmpf0.jpg'')) example_mask
             = (v2, Inr ''/tmp/tmpf1.png'')
         \<and> create_file text_only_env (emit v2 (TempFilesAppend ''/tmp/tmpf1.png'')) ''/tmp/tmpf0.jpg''
             = (v3, Inr ''file-0'')
         \<and> create_file text_only_env v3 ''/tmp/tmpf1.png'' = (v4, Inr ''file-1'')
         \<and> responses_create text_only_env (api_calls v4)
              (masking_request ''add a red balloon'' ''file-0'' ''high'' ''file-1'') = Inr text_only_response"
    using v1(1) v2(1) v3(1) v4 rc by simp
  note t = no_image_is_reported_not_raised[OF nt, where ev = text_only_env and w = empty_world
         and valid_files = "[example_base]" and prompt = "''a castle at dusk''"
         and ?w1.0 = w1 and temp_files = tf and base64_images = bs and file_ids = ids]
  note c = t[THEN conjunct2, THEN conjunct2, THEN conjunct2, THEN conjunct2, THEN conjunct2,
             THEN conjunct1, THEN mp, OF h]
  note t' = no_image_is_reported_not_raised[OF nt, where ev = text_only_env and w = empty_world
         and prompt = "''add a red balloon''" and base_image = example_base and mask_image = example_mask
         and ?v1.0 = v1 and ?v2.0 = v2 and ?v3.0 = v3 and ?v4.0 = v4
         and base_path = "''/tmp/tmpf0.jpg''" and mask_path = "''/tmp/tmpf1.png''"
         and base_file_id = "''file-0''" and mask_file_id = "''file-1''" and qual = "''high''"
         and output_filename = "''masked_image.png''"]
  note c' = t'[THEN conjunct2, THEN conjunct2, THEN conjunct2, THEN conjunct2, THEN conjunct2,
             THEN conjunct2, THEN mp, OF k]
  have o: "map otype (output text_only_response) = [''message'']"
    by (simp add: text_only_response_def)
  from c c' l o show ?thesis by simp
qed

end
